theory Spec2Isabelle
  imports Main "HOL-Library.Multiset"
begin

section \<open>JavaScript primitives used by the transform\<close>

text \<open>
  \<open>Array.prototype.indexOf\<close>: the first index holding the value, \<open>-1\<close> (here \<open>None\<close>)
  when there is none.
\<close>

fun indexOf :: "'a list \<Rightarrow> 'a \<Rightarrow> nat option" where
  "indexOf [] x = None"
| "indexOf (y # ys) x = (if y = x then Some 0 else map_option Suc (indexOf ys x))"

text \<open>An array read \<open>xs[i]\<close>: \<open>undefined\<close> (here \<open>None\<close>) out of range.\<close>

definition nth_opt :: "'a list \<Rightarrow> nat \<Rightarrow> 'a option" where
  "nth_opt xs i = (if i < length xs then Some (xs ! i) else None)"

text \<open>
  \<open>String.prototype.split\<close> with a one-character separator: the result is never empty,
  and an empty string splits into one empty segment.
\<close>

fun split_on :: "char \<Rightarrow> string \<Rightarrow> string list" where
  "split_on c [] = [[]]"
| "split_on c (x # xs) =
     (if x = c then [] # split_on c xs
      else (case split_on c xs of
              [] \<Rightarrow> [[x]]
            | p # ps \<Rightarrow> (x # p) # ps))"

section \<open>Resolutions (the types imported from the resolver module)\<close>

text \<open>
  The declarations of \<open>ResolvedDep\<close>, \<open>ComponentResolution\<close>, \<open>ResolutionFail\<close>,
  \<open>Resolution\<close> and \<open>ComponentLocator\<close> live in the resolver module; the transform reads
  the fields below. A slot of \<open>yieldsComponents\<close> is a boolean or an object of booleans, a
  slot of \<open>yieldsArguments\<close> a string or an object of strings; objects are maps from
  property names.
\<close>

type_synonym Loc = nat

record ResolvedDep =
  runtimeName :: string
  absPath :: string

datatype YieldsComponent = YCBool bool | YCMap "string \<rightharpoonup> bool"

datatype YieldsArgument = YAString string | YAMap "string \<rightharpoonup> string"

record ComponentResolution =
  jsModule :: "ResolvedDep option"
  hbsModule :: "ResolvedDep option"
  yieldsComponents :: "YieldsComponent list"
  yieldsArguments :: "YieldsArgument list"
  argumentsAreComponents :: "string list"
  nameHint :: string

record ResolutionFail =
  message :: string
  detail :: string
  loc :: Loc

datatype Resolution =
    Component ComponentResolution
  | Helper ResolvedDep string
  | Modifier ResolvedDep string
  | Error ResolutionFail

datatype ComponentLocator = LiteralLocator string | PathLocator string | OtherLocator

section \<open>The scope stack\<close>

text \<open>
  A marker carries its resolution, its own copy of the resolution's
  \<open>argumentsAreComponents\<close> (the list \<open>safeComponentInScope\<close> appends to) and its exit
  callback. The callback is a closure in the source; here it is the data \<open>'x\<close> the closure
  captured, run by whoever pops the marker.
\<close>

record 'x ComponentBlockMarker =
  resolution :: ComponentResolution
  markerArguments :: "string list"
  exit :: 'x

datatype 'x ScopeEntry =
    blockParams "string list"
  | componentBlockMarker "'x ComponentBlockMarker"

type_synonym 'x ScopeStack = "'x ScopeEntry list"

text \<open>\<open>push\<close>: \<open>this.stack.unshift({ type: 'blockParams', blockParams })\<close>.\<close>

definition push :: "string list \<Rightarrow> 'x ScopeStack \<Rightarrow> 'x ScopeStack" where
  "push bps stack = blockParams bps # stack"

text \<open>
  \<open>enteringComponentBlock\<close>: the marker starts with a copy (\<open>slice()\<close>) of the resolution's
  \<open>argumentsAreComponents\<close>.
\<close>

definition enteringComponentBlock ::
  "ComponentResolution \<Rightarrow> 'x \<Rightarrow> 'x ScopeStack \<Rightarrow> 'x ScopeStack" where
  "enteringComponentBlock res ex stack =
     componentBlockMarker
       \<lparr> resolution = res, markerArguments = argumentsAreComponents res, exit = ex \<rparr> # stack"

text \<open>
  \<open>pop\<close>: \<open>shift()\<close> (nothing on an empty array), then, when a marker is now first, its exit
  callback runs with the marker still on the stack, and a second \<open>shift()\<close> follows. The
  callback \<open>run\<close> gets the marker and transforms the stack together with the rest of the
  world \<open>'w\<close>.
\<close>

definition pop ::
  "('x ComponentBlockMarker \<Rightarrow> 'x ScopeStack \<times> 'w \<Rightarrow> 'x ScopeStack \<times> 'w) \<Rightarrow>
   'x ScopeStack \<times> 'w \<Rightarrow> 'x ScopeStack \<times> 'w" where
  "pop run sw =
     (let stack1 = drop 1 (fst sw) in
      case stack1 of
        componentBlockMarker next # _ \<Rightarrow>
          (let sw2 = run next (stack1, snd sw) in (drop 1 (fst sw2), snd sw2))
      | _ \<Rightarrow> (stack1, snd sw))"

text \<open>\<open>inScope\<close>: some block-params frame holds the name; markers are ignored.\<close>

fun inScope :: "string \<Rightarrow> 'x ScopeStack \<Rightarrow> bool" where
  "inScope name [] = False"
| "inScope name (blockParams bps # rest) = (if name \<in> set bps then True else inScope name rest)"
| "inScope name (componentBlockMarker m # rest) = inScope name rest"

text \<open>
  The body of the loop of \<open>safeComponentInScope\<close> at one pair \<open>here = stack[i]\<close>,
  \<open>next = stack[i + 1]\<close>: \<open>None\<close> is \<open>continue\<close> (or a pair that is not a frame followed by
  a marker), \<open>Some (r, next')\<close> is \<open>return r\<close> with the marker as the body left it.
\<close>

definition pushArgument :: "string \<Rightarrow> 'x ComponentBlockMarker \<Rightarrow> 'x ComponentBlockMarker" where
  "pushArgument sourceArg next = next\<lparr> markerArguments := markerArguments next @ [sourceArg] \<rparr>"

definition lookupPart :: "(string \<rightharpoonup> 'v) \<Rightarrow> string option \<Rightarrow> 'v option" where
  "lookupPart obj key = (case key of None \<Rightarrow> None | Some k \<Rightarrow> obj k)"

definition safeComponentAt ::
  "string list \<Rightarrow> 'x ScopeEntry \<Rightarrow> 'x ScopeEntry \<Rightarrow> (bool \<times> 'x ComponentBlockMarker) option" where
  "safeComponentAt parts here next =
     (case (here, next) of
        (blockParams bps, componentBlockMarker m) \<Rightarrow>
          (case nth_opt parts 0 of
             None \<Rightarrow> None
           | Some part0 \<Rightarrow>
          (case indexOf bps part0 of
             None \<Rightarrow> None
           | Some positionalIndex \<Rightarrow>
               if length parts = 1 then
                 (if nth_opt (yieldsComponents (resolution m)) positionalIndex = Some (YCBool True)
                  then Some (True, m)
                  else (case nth_opt (yieldsArguments (resolution m)) positionalIndex of
                          Some (YAString sourceArg) \<Rightarrow> Some (True, pushArgument sourceArg m)
                        | _ \<Rightarrow> Some (False, m)))
               else
                 (case nth_opt (yieldsComponents (resolution m)) positionalIndex of
                    Some (YCMap entry) \<Rightarrow>
                      Some (lookupPart entry (nth_opt parts 1) = Some True, m)
                  | _ \<Rightarrow>
                      (case nth_opt (yieldsArguments (resolution m)) positionalIndex of
                         Some (YAMap argsEntry) \<Rightarrow>
                           (case lookupPart argsEntry (nth_opt parts 1) of
                              Some sourceArg \<Rightarrow> Some (True, pushArgument sourceArg m)
                            | None \<Rightarrow> Some (False, m))
                       | _ \<Rightarrow> Some (False, m)))))
      | _ \<Rightarrow> None)"

text \<open>
  The loop \<open>for (i = 0; i < stack.length - 1; i++)\<close> over the adjacent pairs, innermost
  first; \<open>return false\<close> after the last pair.
\<close>

fun safeComponentLoop :: "string list \<Rightarrow> 'x ScopeStack \<Rightarrow> bool \<times> 'x ScopeStack" where
  "safeComponentLoop parts (here # next # rest) =
     (case safeComponentAt parts here next of
        Some (r, next') \<Rightarrow> (r, here # componentBlockMarker next' # rest)
      | None \<Rightarrow>
          (let (r, stack') = safeComponentLoop parts (next # rest) in (r, here # stack')))"
| "safeComponentLoop parts stack = (False, stack)"

definition safeComponentInScope :: "string \<Rightarrow> 'x ScopeStack \<Rightarrow> bool \<times> 'x ScopeStack" where
  "safeComponentInScope name stack =
     (let parts = split_on CHR ''.'' name in
      if length parts > 2 then (False, stack) else safeComponentLoop parts stack)"

section \<open>The template AST and its walker paths\<close>

text \<open>
  The nodes of the template AST with the fields the transform reads. A \<open>Hash\<close> is
  represented by its \<open>pairs\<close>; \<open>Program\<close> stands for the template and for a block (body
  and block params); \<open>OtherLiteral\<close> for the boolean, number, null and undefined
  literals; \<open>CommentStatement\<close> for both kinds of comment. Every node carries its source
  location first.
\<close>

datatype Node =
    PathExpression Loc string "string list" bool bool
  | StringLiteral Loc string
  | OtherLiteral Loc
  | SubExpression Loc Node "Node list" "Node list"
  | HashPair Loc string Node
  | MustacheStatement Loc Node "Node list" "Node list"
  | BlockStatement Loc Node "Node list" "Node list" Node "Node option"
  | ElementModifierStatement Loc Node "Node list" "Node list"
  | ElementNode Loc string "Node list" "Node list" "string list" "Node list"
  | AttrNode Loc string Node
  | TextNode Loc string
  | ConcatStatement Loc "Node list"
  | CommentStatement Loc
  | Program Loc "Node list" "string list"

fun nodeLoc :: "Node \<Rightarrow> Loc" where
  "nodeLoc (PathExpression l _ _ _ _) = l"
| "nodeLoc (StringLiteral l _) = l"
| "nodeLoc (OtherLiteral l) = l"
| "nodeLoc (SubExpression l _ _ _) = l"
| "nodeLoc (HashPair l _ _) = l"
| "nodeLoc (MustacheStatement l _ _ _) = l"
| "nodeLoc (BlockStatement l _ _ _ _ _) = l"
| "nodeLoc (ElementModifierStatement l _ _ _) = l"
| "nodeLoc (ElementNode l _ _ _ _ _) = l"
| "nodeLoc (AttrNode l _ _) = l"
| "nodeLoc (TextNode l _) = l"
| "nodeLoc (ConcatStatement l _) = l"
| "nodeLoc (CommentStatement l) = l"
| "nodeLoc (Program l _ _) = l"

text \<open>
  The handlers mutate nodes in place through walker paths, and a marker's exit callback
  mutates the node its closure captured. The document is therefore kept in the state,
  and a walker path is the position of its node: the child indices from the root, the
  children of a node being numbered in the order of \<open>kids\<close>. No handler adds or removes
  a node, so positions are stable.
\<close>

type_synonym WalkerPath = "nat list"

fun kids :: "Node \<Rightarrow> Node list" where
  "kids (SubExpression _ p ps hs) = p # ps @ hs"
| "kids (HashPair _ _ v) = [v]"
| "kids (MustacheStatement _ p ps hs) = p # ps @ hs"
| "kids (BlockStatement _ p ps hs prog els) =
     p # ps @ hs @ [prog] @ (case els of None \<Rightarrow> [] | Some i \<Rightarrow> [i])"
| "kids (ElementModifierStatement _ p ps hs) = p # ps @ hs"
| "kids (ElementNode _ _ attrs mods _ cs) = attrs @ mods @ cs"
| "kids (AttrNode _ _ v) = [v]"
| "kids (ConcatStatement _ parts) = parts"
| "kids (Program _ body _) = body"
| "kids _ = []"

definition mapNth :: "nat \<Rightarrow> ('a \<Rightarrow> 'a) \<Rightarrow> 'a list \<Rightarrow> 'a list" where
  "mapNth i f xs = (if i < length xs then xs[i := f (xs ! i)] else xs)"

text \<open>\<open>mapCall\<close> applies \<open>f\<close> to child \<open>i\<close> of a node made of a path, params and hash pairs.\<close>

definition mapCall ::
  "nat \<Rightarrow> (Node \<Rightarrow> Node) \<Rightarrow> Node \<Rightarrow> Node list \<Rightarrow> Node list \<Rightarrow> Node \<times> Node list \<times> Node list" where
  "mapCall i f p ps hs =
     (if i = 0 then (f p, ps, hs)
      else if i - 1 < length ps then (p, mapNth (i - 1) f ps, hs)
      else (p, ps, mapNth (i - 1 - length ps) f hs))"

fun mapKid :: "nat \<Rightarrow> (Node \<Rightarrow> Node) \<Rightarrow> Node \<Rightarrow> Node" where
  "mapKid i f (SubExpression l p ps hs) =
     (case mapCall i f p ps hs of (p', ps', hs') \<Rightarrow> SubExpression l p' ps' hs')"
| "mapKid i f (HashPair l k v) = (if i = 0 then HashPair l k (f v) else HashPair l k v)"
| "mapKid i f (MustacheStatement l p ps hs) =
     (case mapCall i f p ps hs of (p', ps', hs') \<Rightarrow> MustacheStatement l p' ps' hs')"
| "mapKid i f (BlockStatement l p ps hs prog els) =
     (if i < 1 + length ps + length hs then
        (case mapCall i f p ps hs of (p', ps', hs') \<Rightarrow> BlockStatement l p' ps' hs' prog els)
      else if i = 1 + length ps + length hs then BlockStatement l p ps hs (f prog) els
      else if i = 2 + length ps + length hs then BlockStatement l p ps hs prog (map_option f els)
      else BlockStatement l p ps hs prog els)"
| "mapKid i f (ElementModifierStatement l p ps hs) =
     (case mapCall i f p ps hs of (p', ps', hs') \<Rightarrow> ElementModifierStatement l p' ps' hs')"
| "mapKid i f (ElementNode l tag attrs mods bps cs) =
     (if i < length attrs then ElementNode l tag (mapNth i f attrs) mods bps cs
      else if i - length attrs < length mods
        then ElementNode l tag attrs (mapNth (i - length attrs) f mods) bps cs
      else ElementNode l tag attrs mods bps (mapNth (i - length attrs - length mods) f cs))"
| "mapKid i f (AttrNode l n v) = (if i = 0 then AttrNode l n (f v) else AttrNode l n v)"
| "mapKid i f (ConcatStatement l parts) = ConcatStatement l (mapNth i f parts)"
| "mapKid i f (Program l body bps) = Program l (mapNth i f body) bps"
| "mapKid i f n = n"

fun nodeAt :: "Node \<Rightarrow> WalkerPath \<Rightarrow> Node option" where
  "nodeAt n [] = Some n"
| "nodeAt n (i # rest) = (case nth_opt (kids n) i of None \<Rightarrow> None | Some k \<Rightarrow> nodeAt k rest)"

fun updateAt :: "WalkerPath \<Rightarrow> (Node \<Rightarrow> Node) \<Rightarrow> Node \<Rightarrow> Node" where
  "updateAt [] f n = f n"
| "updateAt (i # rest) f n = mapKid i (updateAt rest f) n"

section \<open>The collaborators: Resolver, import binder, builders\<close>

text \<open>
  \<open>componentName\<close> is declared a string; the visitor passes \<open>parts[0]\<close>,
  \<open>node.path.original\<close> or \<open>node.tag\<close> of a node read at that moment, which is
  \<open>undefined\<close> (here \<open>None\<close>) when the path has no parts.
\<close>

record ImpliedBecause =
  componentName :: "string option"
  argumentName :: string

text \<open>
  A call of a method of the Resolver with its arguments. The Resolver is outside this
  file: its answer is the parameter \<open>resolver\<close> of the host, a function of the calls made
  so far and of the call. Every call is logged in the state, so that "no Resolver call"
  is "the log did not grow". \<open>resolveDynamicHelper\<close>, \<open>resolveDynamicModifier\<close> and
  \<open>reportError\<close> return nothing.
\<close>

datatype ResolverCall =
    resolveMustache string bool string Loc
  | resolveSubExpression string string Loc
  | resolveElementModifierStatement string string Loc
  | resolveElement string string Loc
  | resolveComponentHelper ComponentLocator string Loc "ImpliedBecause option"
  | resolveDynamicHelper ComponentLocator string Loc
  | resolveDynamicModifier ComponentLocator string Loc
  | reportError ResolutionFail string string

text \<open>
  \<open>jsutils.bindImport(moduleSpecifier, exportedName, target, { nameHint })\<close> returns the
  identifier it bound; which one is the binder's choice, the parameter \<open>bindName\<close> (a
  function of the earlier requests and of this one).
\<close>

record BindImport =
  moduleSpecifier :: string
  exportedName :: string
  target :: WalkerPath
  bindHint :: string

text \<open>
  \<open>jsutils.emitExpression(callback)\<close> as \<open>emitAMD\<close> calls it: the callback imports
  \<open>importSpecifier\<close>'s default export under the hint \<open>importHint\<close> and returns
  \<open>window.define("defineName", () => identifier)\<close>.
\<close>

record EmitExpression =
  importSpecifier :: string
  importHint :: string
  defineName :: string

record Host =
  resolver :: "ResolverCall list \<Rightarrow> ResolverCall \<Rightarrow> Resolution option"
  bindName :: "BindImport list \<Rightarrow> BindImport \<Rightarrow> string"
  explicitRelative :: "string \<Rightarrow> string \<Rightarrow> string"
  dirname :: "string \<Rightarrow> string"
  buildersPath :: "string \<Rightarrow> Node"
  buildersMustache :: "Node \<Rightarrow> Node"

record Options =
  patchHelpersBug :: bool

record Env =
  filename :: string
  contents :: string
  strict :: "bool option"
  locals :: "string list option"

section \<open>The state of one traversal\<close>

text \<open>
  An exit callback of the visitor is \<open>({ argumentsAreComponents }) =>
  handleDynamicComponentArguments(name, argumentsAreComponents, paths)\<close>. For a block
  statement the closure holds \<open>rootName\<close> and the walker path, and \<open>paths\<close> are the hash
  pairs of that node; for an element it holds the node and its walker path, \<open>name\<close> is
  the tag the node has when the callback runs, and \<open>paths\<close> are its attributes.
\<close>

datatype AttributesOf = HashPairsOf | AttrNodesOf

datatype ExitClosure = BlockExit "string option" WalkerPath | ElementExit WalkerPath

record TState =
  doc :: Node
  scopeStack :: "ExitClosure ScopeStack"
  emittedAMDDeps :: "string set"
  emittedLexicalBindings :: "string \<rightharpoonup> Resolution"
  resolverCalls :: "ResolverCall list"
  bindImports :: "BindImport list"
  emittedExpressions :: "EmitExpression list"

definition callResolver :: "Host \<Rightarrow> ResolverCall \<Rightarrow> TState \<Rightarrow> Resolution option \<times> TState" where
  "callResolver host c st =
     (resolver host (resolverCalls st) c, st\<lparr> resolverCalls := resolverCalls st @ [c] \<rparr>)"

definition relativeToFile :: "Host \<Rightarrow> Env \<Rightarrow> string \<Rightarrow> string" where
  "relativeToFile host env p = explicitRelative host (dirname host (filename env)) p"

section \<open>The locator classifier\<close>

text \<open>The two statements after the \<open>switch\<close> of \<open>handleComponentHelper\<close>.\<close>

definition resolveLocator ::
  "Host \<Rightarrow> ComponentLocator \<Rightarrow> string \<Rightarrow> Loc \<Rightarrow> ImpliedBecause option \<Rightarrow> TState \<Rightarrow>
   Resolution option \<times> TState" where
  "resolveLocator host locator moduleName l impliedBecause st =
     (case (case locator of
              PathLocator p \<Rightarrow>
                (let (safe, stack') = safeComponentInScope p (scopeStack st)
                 in (safe, st\<lparr> scopeStack := stack' \<rparr>))
            | _ \<Rightarrow> (False, st)) of
        (safe, st') \<Rightarrow>
          if safe then (None, st')
          else callResolver host (resolveComponentHelper locator moduleName l impliedBecause) st')"

definition isPathOriginal :: "Node \<Rightarrow> string \<Rightarrow> bool" where
  "isPathOriginal n s = (case n of PathExpression _ original _ _ _ \<Rightarrow> original = s | _ \<Rightarrow> False)"

fun handleComponentHelper ::
  "Host \<Rightarrow> Node \<Rightarrow> string \<Rightarrow> ImpliedBecause option \<Rightarrow> TState \<Rightarrow> Resolution option \<times> TState" where
  "handleComponentHelper host (StringLiteral l v) moduleName because st =
     resolveLocator host (LiteralLocator v) moduleName l because st"
| "handleComponentHelper host (PathExpression l original ps th dt) moduleName because st =
     resolveLocator host (PathLocator original) moduleName l because st"
| "handleComponentHelper host (MustacheStatement l p params pairs) moduleName because st =
     (if length pairs = 0 \<and> length params = 0 then handleComponentHelper host p moduleName because st
      else if isPathOriginal p ''component'' then (None, st)
      else resolveLocator host OtherLocator moduleName l because st)"
| "handleComponentHelper host (TextNode l chars) moduleName because st =
     resolveLocator host (LiteralLocator chars) moduleName l because st"
| "handleComponentHelper host (SubExpression l p params pairs) moduleName because st =
     (if isPathOriginal p ''component'' then (None, st)
      else if isPathOriginal p ''ensure-safe-component'' then (None, st)
      else resolveLocator host OtherLocator moduleName l because st)"
| "handleComponentHelper host n moduleName because st =
     resolveLocator host OtherLocator moduleName (nodeLoc n) because st"

fun handleDynamicHelper :: "Host \<Rightarrow> Node \<Rightarrow> string \<Rightarrow> TState \<Rightarrow> TState" where
  "handleDynamicHelper host (StringLiteral l v) moduleName st =
     snd (callResolver host (resolveDynamicHelper (LiteralLocator v) moduleName l) st)"
| "handleDynamicHelper host n moduleName st = st"

fun handleDynamicModifier :: "Host \<Rightarrow> Node \<Rightarrow> string \<Rightarrow> TState \<Rightarrow> TState" where
  "handleDynamicModifier host (StringLiteral l v) moduleName st =
     snd (callResolver host (resolveDynamicModifier (LiteralLocator v) moduleName l) st)"
| "handleDynamicModifier host n moduleName st = st"

section \<open>The binding emitter\<close>

definition emitAMD :: "Host \<Rightarrow> Env \<Rightarrow> ResolvedDep option \<Rightarrow> TState \<Rightarrow> TState" where
  "emitAMD host env dep st =
     (case dep of
        None \<Rightarrow> st
      | Some d \<Rightarrow>
          if runtimeName d \<notin> emittedAMDDeps st then
            (let parts = split_on CHR ''/'' (runtimeName d) in
             st\<lparr> emittedExpressions := emittedExpressions st @
                    [\<lparr> importSpecifier = relativeToFile host env (absPath d),
                       importHint = last parts,
                       defineName = runtimeName d \<rparr>],
                  emittedAMDDeps := insert (runtimeName d) (emittedAMDDeps st) \<rparr>)
          else st)"

text \<open>
  The three statements \<open>bindImport\<close>, \<open>emittedLexicalBindings.set\<close> and \<open>setter\<close>, which
  \<open>emit\<close> repeats for a helper, a modifier and a component. The setter mutates the node
  at \<open>parentPath\<close>.
\<close>

definition bindLexically ::
  "Host \<Rightarrow> Env \<Rightarrow> WalkerPath \<Rightarrow> Resolution \<Rightarrow> string \<Rightarrow> string \<Rightarrow> (Node \<Rightarrow> Node \<Rightarrow> Node) \<Rightarrow>
   TState \<Rightarrow> TState" where
  "bindLexically host env parentPath res modulePath hint setter st =
     (let request = \<lparr> moduleSpecifier = relativeToFile host env modulePath,
                       exportedName = ''default'', target = parentPath, bindHint = hint \<rparr>;
          name = bindName host (bindImports st) request
      in st\<lparr> bindImports := bindImports st @ [request],
              emittedLexicalBindings := (emittedLexicalBindings st)(name \<mapsto> res),
              doc := updateAt parentPath (\<lambda>node. setter node (buildersPath host name)) (doc st) \<rparr>)"

text \<open>
  \<open>emit\<close>. \<open>Resolution\<close> is a closed union, so the \<open>default\<close> branch (\<open>assertNever\<close>) has
  no value to be taken on.
\<close>

definition emit ::
  "Host \<Rightarrow> Options \<Rightarrow> Env \<Rightarrow> WalkerPath \<Rightarrow> Resolution option \<Rightarrow> (Node \<Rightarrow> Node \<Rightarrow> Node) \<Rightarrow>
   TState \<Rightarrow> TState" where
  "emit host opts env parentPath res setter st =
     (case res of
        Some (Error fail) \<Rightarrow>
          snd (callResolver host (reportError fail (filename env) (contents env)) st)
      | Some (Helper module hint) \<Rightarrow>
          if patchHelpersBug opts then emitAMD host env (Some module) st
          else bindLexically host env parentPath (Helper module hint) (absPath module) hint setter st
      | Some (Modifier module hint) \<Rightarrow>
          bindLexically host env parentPath (Modifier module hint) (absPath module) hint setter st
      | Some (Component c) \<Rightarrow>
          (case (jsModule c, hbsModule c) of
             (Some js, None) \<Rightarrow>
               bindLexically host env parentPath (Component c) (absPath js) (nameHint c) setter st
           | _ \<Rightarrow> emitAMD host env (jsModule c) (emitAMD host env (hbsModule c) st))
      | None \<Rightarrow> st)"

section \<open>Arguments that are components\<close>

text \<open>\<open>extendPath\<close>: the walker paths of the hash pairs, or of the attributes, of a node.\<close>

definition extendPath :: "AttributesOf \<Rightarrow> WalkerPath \<Rightarrow> Node \<Rightarrow> WalkerPath list" where
  "extendPath key path root =
     (case (key, nodeAt root path) of
        (HashPairsOf, Some (MustacheStatement _ _ ps hs)) \<Rightarrow>
          map (\<lambda>j. path @ [1 + length ps + j]) [0..<length hs]
      | (HashPairsOf, Some (BlockStatement _ _ ps hs _ _)) \<Rightarrow>
          map (\<lambda>j. path @ [1 + length ps + j]) [0..<length hs]
      | (AttrNodesOf, Some (ElementNode _ _ attrs _ _ _)) \<Rightarrow>
          map (\<lambda>j. path @ [j]) [0..<length attrs]
      | _ \<Rightarrow> [])"

text \<open>\<open>attributes.find(...)\<close>: the first path whose node is the attribute \<open>@name\<close> or the
  hash pair \<open>name\<close>.\<close>

definition attrMatches :: "string \<Rightarrow> Node option \<Rightarrow> bool" where
  "attrMatches name n =
     (case n of
        Some (AttrNode _ attrName _) \<Rightarrow> attrName = CHR ''@'' # name
      | Some (HashPair _ key _) \<Rightarrow> key = name
      | _ \<Rightarrow> False)"

definition setAttrValue :: "Host \<Rightarrow> Node \<Rightarrow> Node \<Rightarrow> Node" where
  "setAttrValue host node newId =
     (case node of
        AttrNode l n v \<Rightarrow> AttrNode l n (buildersMustache host newId)
      | HashPair l k v \<Rightarrow> HashPair l k newId
      | _ \<Rightarrow> node)"

definition attrValue :: "Node \<Rightarrow> Node option" where
  "attrValue n = (case n of AttrNode _ _ v \<Rightarrow> Some v | HashPair _ _ v \<Rightarrow> Some v | _ \<Rightarrow> None)"

text \<open>One turn of the loop of \<open>handleDynamicComponentArguments\<close>.\<close>

definition handleDynamicComponentArgument ::
  "Host \<Rightarrow> Options \<Rightarrow> Env \<Rightarrow> string option \<Rightarrow> WalkerPath list \<Rightarrow> string \<Rightarrow>
   TState \<Rightarrow> TState" where
  "handleDynamicComponentArgument host opts env cName attributes name st =
     (case find (\<lambda>attr. attrMatches name (nodeAt (doc st) attr)) attributes of
        None \<Rightarrow> st
      | Some attr \<Rightarrow>
          (case Option.bind (nodeAt (doc st) attr) attrValue of
             None \<Rightarrow> st
           | Some v \<Rightarrow>
               (let (res, st') =
                      handleComponentHelper host v (filename env)
                        (Some \<lparr> componentName = cName, argumentName = name \<rparr>) st
                in emit host opts env attr res (setAttrValue host) st')))"

definition handleDynamicComponentArguments ::
  "Host \<Rightarrow> Options \<Rightarrow> Env \<Rightarrow> string option \<Rightarrow> string list \<Rightarrow> WalkerPath list \<Rightarrow>
   TState \<Rightarrow> TState" where
  "handleDynamicComponentArguments host opts env cName args attributes st =
     fold (handleDynamicComponentArgument host opts env cName attributes) args st"

section \<open>The visitor\<close>

text \<open>The setters the handlers pass to \<open>emit\<close>.\<close>

definition setParam0 :: "Node \<Rightarrow> Node \<Rightarrow> Node" where
  "setParam0 node newId =
     (case node of
        BlockStatement l p ps hs prog els \<Rightarrow> BlockStatement l p (ps[0 := newId]) hs prog els
      | SubExpression l p ps hs \<Rightarrow> SubExpression l p (ps[0 := newId]) hs
      | MustacheStatement l p ps hs \<Rightarrow> MustacheStatement l p (ps[0 := newId]) hs
      | _ \<Rightarrow> node)"

definition setPath :: "Node \<Rightarrow> Node \<Rightarrow> Node" where
  "setPath node newId =
     (case node of
        BlockStatement l p ps hs prog els \<Rightarrow> BlockStatement l newId ps hs prog els
      | SubExpression l p ps hs \<Rightarrow> SubExpression l newId ps hs
      | MustacheStatement l p ps hs \<Rightarrow> MustacheStatement l newId ps hs
      | ElementModifierStatement l p ps hs \<Rightarrow> ElementModifierStatement l newId ps hs
      | _ \<Rightarrow> node)"

text \<open>
  \<open>node.tag = newId.original\<close>; \<open>builders.path\<close> returns a path expression, and for any
  other node the tag is left as it is.
\<close>

definition setTag :: "Node \<Rightarrow> Node \<Rightarrow> Node" where
  "setTag node newId =
     (case (node, newId) of
        (ElementNode l tag attrs mods bps cs, PathExpression _ original _ _ _) \<Rightarrow>
          ElementNode l original attrs mods bps cs
      | _ \<Rightarrow> node)"

text \<open>\<open>inScope(parts[0])\<close>: no frame holds \<open>undefined\<close>.\<close>

definition inScopeRoot :: "string option \<Rightarrow> 'x ScopeStack \<Rightarrow> bool" where
  "inScopeRoot rootName stack = (case rootName of None \<Rightarrow> False | Some n \<Rightarrow> inScope n stack)"

definition lexicalBinding :: "string option \<Rightarrow> TState \<Rightarrow> Resolution option" where
  "lexicalBinding rootName st =
     (case rootName of None \<Rightarrow> None | Some n \<Rightarrow> emittedLexicalBindings st n)"

definition enterComponentBlock :: "ComponentResolution \<Rightarrow> ExitClosure \<Rightarrow> TState \<Rightarrow> TState" where
  "enterComponentBlock c ex st = st\<lparr> scopeStack := enteringComponentBlock c ex (scopeStack st) \<rparr>"

text \<open>\<open>node.path.original\<close> and \<open>node.tag\<close> of the node at a walker path, read now.\<close>

definition pathOriginalAt :: "Node \<Rightarrow> WalkerPath \<Rightarrow> string option" where
  "pathOriginalAt root path =
     (case nodeAt root path of
        Some (MustacheStatement _ (PathExpression _ original _ _ _) _ _) \<Rightarrow> Some original
      | _ \<Rightarrow> None)"

definition tagAt :: "Node \<Rightarrow> WalkerPath \<Rightarrow> string option" where
  "tagAt root path =
     (case nodeAt root path of Some (ElementNode _ tag _ _ _ _) \<Rightarrow> Some tag | _ \<Rightarrow> None)"

text \<open>Running the exit callback of a marker, and \<open>scopeStack.pop()\<close> in the visitor.\<close>

definition runExit :: "Host \<Rightarrow> Options \<Rightarrow> Env \<Rightarrow> ExitClosure ComponentBlockMarker \<Rightarrow> TState \<Rightarrow> TState" where
  "runExit host opts env m st =
     (case exit m of
        BlockExit rootName path \<Rightarrow>
          handleDynamicComponentArguments host opts env rootName (markerArguments m)
            (extendPath HashPairsOf path (doc st)) st
      | ElementExit path \<Rightarrow>
          handleDynamicComponentArguments host opts env (tagAt (doc st) path) (markerArguments m)
            (extendPath AttrNodesOf path (doc st)) st)"

definition popScope :: "Host \<Rightarrow> Options \<Rightarrow> Env \<Rightarrow> TState \<Rightarrow> TState" where
  "popScope host opts env st =
     (case pop (\<lambda>m sw. (let st' = runExit host opts env m ((snd sw)\<lparr> scopeStack := fst sw \<rparr>)
                         in (scopeStack st', st')))
             (scopeStack st, st) of
        (stack', st') \<Rightarrow> st'\<lparr> scopeStack := stack' \<rparr>)"

definition pushScope :: "string list \<Rightarrow> TState \<Rightarrow> TState" where
  "pushScope bps st = st\<lparr> scopeStack := push bps (scopeStack st) \<rparr>"

text \<open>\<open>Program\<close>: \<open>enter\<close> and \<open>exit\<close>.\<close>

definition programEnter :: "Env \<Rightarrow> WalkerPath \<Rightarrow> TState \<Rightarrow> TState" where
  "programEnter env path st =
     (case nodeAt (doc st) path of
        Some (Program _ _ bps) \<Rightarrow>
          pushScope bps (case locals env of Some ls \<Rightarrow> pushScope ls st | None \<Rightarrow> st)
      | _ \<Rightarrow> st)"

definition programExit :: "Host \<Rightarrow> Options \<Rightarrow> Env \<Rightarrow> WalkerPath \<Rightarrow> TState \<Rightarrow> TState" where
  "programExit host opts env path st =
     (let st1 = popScope host opts env st in
      case locals env of Some ls \<Rightarrow> popScope host opts env st1 | None \<Rightarrow> st1)"

text \<open>\<open>BlockStatement\<close>.\<close>

definition blockStatement :: "Host \<Rightarrow> Options \<Rightarrow> Env \<Rightarrow> WalkerPath \<Rightarrow> TState \<Rightarrow> TState" where
  "blockStatement host opts env path st =
     (case nodeAt (doc st) path of
        Some (BlockStatement _ (PathExpression pl original parts this dt) params _ _ _) \<Rightarrow>
          (let rootName = nth_opt parts 0 in
           if inScopeRoot rootName (scopeStack st) then
             (case lexicalBinding rootName st of
                Some (Component c) \<Rightarrow> enterComponentBlock c (BlockExit rootName path) st
              | _ \<Rightarrow> st)
           else if this then st
           else if length parts > 1 then st
           else if original = ''component'' \<and> length params > 0 then
             (case handleComponentHelper host (params ! 0) (filename env) None st of
                (res, st1) \<Rightarrow> emit host opts env path res setParam0 st1)
           else
             (case callResolver host (resolveMustache original True (filename env) pl) st of
                (res, st1) \<Rightarrow>
                  (let st2 = emit host opts env path res setPath st1 in
                   case res of
                     Some (Component c) \<Rightarrow> enterComponentBlock c (BlockExit rootName path) st2
                   | _ \<Rightarrow> st2)))
      | _ \<Rightarrow> st)"

text \<open>\<open>SubExpression\<close>.\<close>

definition subExpression :: "Host \<Rightarrow> Options \<Rightarrow> Env \<Rightarrow> WalkerPath \<Rightarrow> TState \<Rightarrow> TState" where
  "subExpression host opts env path st =
     (case nodeAt (doc st) path of
        Some (SubExpression _ (PathExpression pl original parts this dt) params _) \<Rightarrow>
          if this then st
          else if inScopeRoot (nth_opt parts 0) (scopeStack st) then st
          else if original = ''component'' \<and> length params > 0 then
            (case handleComponentHelper host (params ! 0) (filename env) None st of
               (res, st1) \<Rightarrow> emit host opts env path res setParam0 st1)
          else if original = ''helper'' \<and> length params > 0 then
            handleDynamicHelper host (params ! 0) (filename env) st
          else if original = ''modifier'' \<and> length params > 0 then
            handleDynamicModifier host (params ! 0) (filename env) st
          else
            (case callResolver host (resolveSubExpression original (filename env) pl) st of
               (res, st1) \<Rightarrow> emit host opts env path res setPath st1)
      | _ \<Rightarrow> st)"

text \<open>\<open>MustacheStatement\<close>: \<open>enter\<close>.\<close>

definition mustacheStatementEnter :: "Host \<Rightarrow> Options \<Rightarrow> Env \<Rightarrow> WalkerPath \<Rightarrow> TState \<Rightarrow> TState" where
  "mustacheStatementEnter host opts env path st =
     (case nodeAt (doc st) path of
        Some (MustacheStatement _ (PathExpression pl original parts this dt) params pairs) \<Rightarrow>
          (let rootName = nth_opt parts 0 in
           if inScopeRoot rootName (scopeStack st) then
             (case lexicalBinding rootName st of
                Some (Component c) \<Rightarrow>
                  handleDynamicComponentArguments host opts env rootName
                    (argumentsAreComponents c) (extendPath HashPairsOf path (doc st)) st
              | _ \<Rightarrow> st)
           else if this then st
           else if length parts > 1 then st
           else if original = ''component'' \<and> length params > 0 then
             (case handleComponentHelper host (params ! 0) (filename env) None st of
                (res, st1) \<Rightarrow> emit host opts env path res setParam0 st1)
           else if original = ''helper'' \<and> length params > 0 then
             handleDynamicHelper host (params ! 0) (filename env) st
           else
             (let hasArgs = (length params > 0 \<or> length pairs > 0) in
              case callResolver host (resolveMustache original hasArgs (filename env) pl) st of
                (res, st1) \<Rightarrow>
                  (let st2 = emit host opts env path res setPath st1 in
                   case res of
                     Some (Component c) \<Rightarrow>
                       handleDynamicComponentArguments host opts env
                         (pathOriginalAt (doc st2) path) (argumentsAreComponents c)
                         (extendPath HashPairsOf path (doc st2)) st2
                   | _ \<Rightarrow> st2)))
      | _ \<Rightarrow> st)"

text \<open>\<open>ElementModifierStatement\<close>.\<close>

definition elementModifierStatement ::
  "Host \<Rightarrow> Options \<Rightarrow> Env \<Rightarrow> WalkerPath \<Rightarrow> TState \<Rightarrow> TState" where
  "elementModifierStatement host opts env path st =
     (case nodeAt (doc st) path of
        Some (ElementModifierStatement _ (PathExpression pl original parts this dt) _ _) \<Rightarrow>
          if inScopeRoot (nth_opt parts 0) (scopeStack st) then st
          else if this then st
          else if dt then st
          else if length parts > 1 then st
          else
            (case callResolver host
                    (resolveElementModifierStatement original (filename env) pl) st of
               (res, st1) \<Rightarrow> emit host opts env path res setPath st1)
      | _ \<Rightarrow> st)"

text \<open>\<open>ElementNode\<close>: \<open>enter\<close> and \<open>exit\<close>.\<close>

definition elementNodeEnter :: "Host \<Rightarrow> Options \<Rightarrow> Env \<Rightarrow> WalkerPath \<Rightarrow> TState \<Rightarrow> TState" where
  "elementNodeEnter host opts env path st =
     (case nodeAt (doc st) path of
        Some (ElementNode l tag _ _ bps _) \<Rightarrow>
          (let rootName = nth_opt (split_on CHR ''.'' tag) 0 in
           pushScope bps
             (if inScopeRoot rootName (scopeStack st) then
                (case lexicalBinding rootName st of
                   Some (Component c) \<Rightarrow> enterComponentBlock c (ElementExit path) st
                 | _ \<Rightarrow> st)
              else
                (case callResolver host (resolveElement tag (filename env) l) st of
                   (res, st1) \<Rightarrow>
                     (let st2 = emit host opts env path res setTag st1 in
                      case res of
                        Some (Component c) \<Rightarrow> enterComponentBlock c (ElementExit path) st2
                      | _ \<Rightarrow> st2))))
      | _ \<Rightarrow> st)"

definition elementNodeExit :: "Host \<Rightarrow> Options \<Rightarrow> Env \<Rightarrow> WalkerPath \<Rightarrow> TState \<Rightarrow> TState" where
  "elementNodeExit host opts env path st = popScope host opts env st"

section \<open>The plugin and the walk\<close>

text \<open>
  A visitor holds at most one handler per node type and direction; a handler registered
  as a plain function runs on entering the node.
\<close>

type_synonym Handler = "WalkerPath \<Rightarrow> TState \<Rightarrow> TState"

record Visitor =
  onProgramEnter :: "Handler option"
  onProgramExit :: "Handler option"
  onBlockStatement :: "Handler option"
  onSubExpression :: "Handler option"
  onMustacheStatementEnter :: "Handler option"
  onElementModifierStatement :: "Handler option"
  onElementNodeEnter :: "Handler option"
  onElementNodeExit :: "Handler option"

record Plugin =
  pluginName :: string
  visitor :: Visitor

definition noHandlers :: Visitor where
  "noHandlers =
     \<lparr> onProgramEnter = None, onProgramExit = None, onBlockStatement = None,
       onSubExpression = None, onMustacheStatementEnter = None,
       onElementModifierStatement = None, onElementNodeEnter = None,
       onElementNodeExit = None \<rparr>"

text \<open>
  \<open>makeResolverTransform\<close> applied to its options and then to the environment; the host
  stands for the resolver of the options and for \<open>jsutils\<close> and \<open>builders\<close> of the
  environment.
\<close>

definition makeResolverTransform :: "Host \<Rightarrow> Options \<Rightarrow> Env \<Rightarrow> Plugin" where
  "makeResolverTransform host opts env =
     (if strict env = Some True then
        \<lparr> pluginName = ''embroider-build-time-resolver-strict-noop'', visitor = noHandlers \<rparr>
      else
        \<lparr> pluginName = ''embroider-build-time-resolver'',
          visitor =
            \<lparr> onProgramEnter = Some (programEnter env),
              onProgramExit = Some (programExit host opts env),
              onBlockStatement = Some (blockStatement host opts env),
              onSubExpression = Some (subExpression host opts env),
              onMustacheStatementEnter = Some (mustacheStatementEnter host opts env),
              onElementModifierStatement = Some (elementModifierStatement host opts env),
              onElementNodeEnter = Some (elementNodeEnter host opts env),
              onElementNodeExit = Some (elementNodeExit host opts env) \<rparr> \<rparr>)"

text \<open>
  The walk is the template compiler's: it enters and leaves the nodes of the document
  and calls the handler the visitor holds for the node's type, if any. Which nodes it
  visits and in which order is its own business; here a walk is any sequence of such
  events.
\<close>

datatype Event = Enter WalkerPath | Exit WalkerPath

definition handlerFor :: "Visitor \<Rightarrow> Event \<Rightarrow> Node option \<Rightarrow> Handler option" where
  "handlerFor v ev n =
     (case (ev, n) of
        (Enter _, Some (Program _ _ _)) \<Rightarrow> onProgramEnter v
      | (Exit _, Some (Program _ _ _)) \<Rightarrow> onProgramExit v
      | (Enter _, Some (BlockStatement _ _ _ _ _ _)) \<Rightarrow> onBlockStatement v
      | (Enter _, Some (SubExpression _ _ _ _)) \<Rightarrow> onSubExpression v
      | (Enter _, Some (MustacheStatement _ _ _ _)) \<Rightarrow> onMustacheStatementEnter v
      | (Enter _, Some (ElementModifierStatement _ _ _ _)) \<Rightarrow> onElementModifierStatement v
      | (Enter _, Some (ElementNode _ _ _ _ _ _)) \<Rightarrow> onElementNodeEnter v
      | (Exit _, Some (ElementNode _ _ _ _ _ _)) \<Rightarrow> onElementNodeExit v
      | _ \<Rightarrow> None)"

definition eventPath :: "Event \<Rightarrow> WalkerPath" where
  "eventPath ev = (case ev of Enter p \<Rightarrow> p | Exit p \<Rightarrow> p)"

definition dispatch :: "Visitor \<Rightarrow> Event \<Rightarrow> TState \<Rightarrow> TState" where
  "dispatch v ev st =
     (case handlerFor v ev (nodeAt (doc st) (eventPath ev)) of
        None \<Rightarrow> st
      | Some h \<Rightarrow> h (eventPath ev) st)"

definition walk :: "Visitor \<Rightarrow> Event list \<Rightarrow> TState \<Rightarrow> TState" where
  "walk v events st = fold (dispatch v) events st"

section \<open>Notions used to state the properties\<close>

text \<open>
  \<open>noBindingPair n pre\<close>: no adjacent pair (block-params frame, marker) of \<open>pre\<close> binds
  the name \<open>n\<close>. With a stack \<open>pre @ blockParams bps # componentBlockMarker m # post\<close>
  where \<open>n\<close> is among \<open>bps\<close>, the pair after \<open>pre\<close> is then the innermost one binding \<open>n\<close>.
\<close>

fun noBindingPair :: "string \<Rightarrow> 'x ScopeStack \<Rightarrow> bool" where
  "noBindingPair n [] = True"
| "noBindingPair n [e] = True"
| "noBindingPair n (blockParams bps # componentBlockMarker m # rest) =
     (n \<notin> set bps \<and> noBindingPair n (componentBlockMarker m # rest))"
| "noBindingPair n (blockParams bps # blockParams bps' # rest) =
     noBindingPair n (blockParams bps' # rest)"
| "noBindingPair n (componentBlockMarker m # e # rest) = noBindingPair n (e # rest)"

text \<open>The argument list of the marker at index \<open>k\<close> of the stack (empty when there is none).\<close>

definition markerArgumentsAt :: "nat \<Rightarrow> 'x ScopeStack \<Rightarrow> string list" where
  "markerArgumentsAt k stack =
     (case nth_opt stack k of Some (componentBlockMarker m) \<Rightarrow> markerArguments m | _ \<Rightarrow> [])"

text \<open>A run of queries, each on the stack the one before left.\<close>

definition queryAll :: "string list \<Rightarrow> 'x ScopeStack \<Rightarrow> 'x ScopeStack" where
  "queryAll names stack = fold (\<lambda>name s. snd (safeComponentInScope name s)) names stack"

text \<open>
  An exit callback that only records the marker it was called with: the world beside the
  stack is the list of the markers whose exit callback ran, in order.
\<close>

definition recordExit ::
  "'x ComponentBlockMarker \<Rightarrow> 'x ScopeStack \<times> 'x ComponentBlockMarker list \<Rightarrow>
   'x ScopeStack \<times> 'x ComponentBlockMarker list" where
  "recordExit m sw = (fst sw, snd sw @ [m])"

text \<open>The state a traversal starts from: \<open>new ScopeStack()\<close>, \<open>new Set()\<close>, \<open>new Map()\<close>.\<close>

definition initialState :: "Node \<Rightarrow> TState" where
  "initialState d =
     \<lparr> doc = d, scopeStack = [], emittedAMDDeps = {}, emittedLexicalBindings = Map.empty,
       resolverCalls = [], bindImports = [], emittedExpressions = [] \<rparr>"

text \<open>Concrete collaborators and values for the examples.\<close>

definition exampleHost :: Host where
  "exampleHost =
     \<lparr> resolver = (\<lambda>calls c. None),
       bindName = (\<lambda>requests r. bindHint r),
       explicitRelative = (\<lambda>dir p. p),
       dirname = (\<lambda>p. p),
       buildersPath = (\<lambda>n. PathExpression 0 n (split_on CHR ''.'' n) False False),
       buildersMustache = (\<lambda>n. MustacheStatement 0 n [] []) \<rparr>"

definition exampleEnv :: Env where
  "exampleEnv = \<lparr> filename = ''app.hbs'', contents = ''text'', strict = None, locals = None \<rparr>"

definition exampleResolution :: "YieldsComponent list \<Rightarrow> YieldsArgument list \<Rightarrow> ComponentResolution" where
  "exampleResolution yc ya =
     \<lparr> jsModule = Some \<lparr> runtimeName = ''app/components/parent'', absPath = ''/app/components/parent.js'' \<rparr>,
       hbsModule = None, yieldsComponents = yc, yieldsArguments = ya,
       argumentsAreComponents = [], nameHint = ''Parent'' \<rparr>"

definition exampleMarker ::
  "YieldsComponent list \<Rightarrow> YieldsArgument list \<Rightarrow> ExitClosure ComponentBlockMarker" where
  "exampleMarker yc ya =
     \<lparr> resolution = exampleResolution yc ya, markerArguments = [],
       exit = ElementExit [0] \<rparr>"

text \<open>
  Sequences of the three operations that change the shape of the stack, run with the
  recording exit callback. A push and an \<open>enteringComponentBlock\<close> name the block \<open>'b\<close>
  they are made for. Beside the stack and the record of the exit callbacks the run
  keeps, for every entry of the stack, the block it was pushed for (\<open>owners\<close>, in the
  order of the stack); the stack itself holds no such field.
\<close>

datatype ('b, 'x) ScopeOp =
    PushOp 'b "string list"
  | EnterOp 'b ComponentResolution 'x
  | PopOp

fun applyOp ::
  "('b, 'x) ScopeOp \<Rightarrow> 'x ScopeStack \<times> 'x ComponentBlockMarker list \<times> 'b list \<Rightarrow>
   'x ScopeStack \<times> 'x ComponentBlockMarker list \<times> 'b list" where
  "applyOp (PushOp b bps) (stack, log, owners) = (push bps stack, log, b # owners)"
| "applyOp (EnterOp b res ex) (stack, log, owners) =
     (enteringComponentBlock res ex stack, log, b # owners)"
| "applyOp PopOp (stack, log, owners) =
     (case pop recordExit (stack, log) of
        (stack', log') \<Rightarrow> (stack', log', drop (length stack - length stack') owners))"

definition runOps ::
  "('b, 'x) ScopeOp list \<Rightarrow> 'x ScopeStack \<times> 'x ComponentBlockMarker list \<times> 'b list \<Rightarrow>
   'x ScopeStack \<times> 'x ComponentBlockMarker list \<times> 'b list" where
  "runOps ops s = fold applyOp ops s"

text \<open>
  \<open>paired\<close>: every \<open>enteringComponentBlock\<close> is directly followed by the push of the
  block-params frame of the same block.
\<close>

fun paired :: "('b, 'x) ScopeOp list \<Rightarrow> bool" where
  "paired [] = True"
| "paired (PushOp b bps # ops) = paired ops"
| "paired (PopOp # ops) = paired ops"
| "paired (EnterOp b res ex # PushOp b' bps # ops) = (b = b' \<and> paired ops)"
| "paired (EnterOp b res ex # PopOp # ops) = False"
| "paired (EnterOp b res ex # EnterOp b' res' ex' # ops) = False"
| "paired [EnterOp b res ex] = False"

text \<open>
  \<open>belowOwnFrame\<close>, on the stack zipped with its owners: every marker sits directly
  below a block-params frame, and that frame was pushed for the marker's block.
\<close>

fun belowOwnFrame :: "('x ScopeEntry \<times> 'b) list \<Rightarrow> bool" where
  "belowOwnFrame [] = True"
| "belowOwnFrame ((componentBlockMarker m, b) # rest) = False"
| "belowOwnFrame [(blockParams bps, b)] = True"
| "belowOwnFrame ((blockParams bps, b) # (blockParams bps', b') # rest) =
     belowOwnFrame ((blockParams bps', b') # rest)"
| "belowOwnFrame ((blockParams bps, b) # (componentBlockMarker m, b') # rest) =
     (b = b' \<and> belowOwnFrame rest)"

definition markersBelowOwnFrame :: "'x ScopeStack \<Rightarrow> 'b list \<Rightarrow> bool" where
  "markersBelowOwnFrame stack owners =
     (length owners = length stack \<and> belowOwnFrame (zip stack owners))"

fun markersOf :: "'x ScopeStack \<Rightarrow> 'x ComponentBlockMarker list" where
  "markersOf [] = []"
| "markersOf (blockParams bps # rest) = markersOf rest"
| "markersOf (componentBlockMarker m # rest) = m # markersOf rest"

fun enteredMarkers :: "('b, 'x) ScopeOp list \<Rightarrow> 'x ComponentBlockMarker list" where
  "enteredMarkers [] = []"
| "enteredMarkers (EnterOp b res ex # ops) =
     \<lparr> resolution = res, markerArguments = argumentsAreComponents res, exit = ex \<rparr>
       # enteredMarkers ops"
| "enteredMarkers (PushOp b bps # ops) = enteredMarkers ops"
| "enteredMarkers (PopOp # ops) = enteredMarkers ops"

text \<open>
  \<open>amdConsistent\<close>: the names registered by the emitted expressions are pairwise
  different and are exactly the members of \<open>emittedAMDDeps\<close>.
\<close>

definition amdConsistent :: "TState \<Rightarrow> bool" where
  "amdConsistent st =
     (distinct (map defineName (emittedExpressions st)) \<and>
      set (map defineName (emittedExpressions st)) = emittedAMDDeps st)"

definition exampleDep :: ResolvedDep where
  "exampleDep = \<lparr> runtimeName = ''app/helpers/my-helper'', absPath = ''/app/helpers/my-helper.js'' \<rparr>"

definition exampleOptions :: Options where
  "exampleOptions = \<lparr> patchHelpersBug = False \<rparr>"

definition strictEnv :: Env where
  "strictEnv = \<lparr> filename = ''app.gjs'', contents = ''text'', strict = Some True, locals = None \<rparr>"

text \<open>The document \<open>{{modifier "my-modifier"}}\<close>, and the same call as a sub-expression.\<close>

definition modifierMustache :: Node where
  "modifierMustache =
     Program 0
       [MustacheStatement 1 (PathExpression 2 ''modifier'' [''modifier''] False False)
          [StringLiteral 3 ''my-modifier''] []] []"

definition modifierSubExpression :: Node where
  "modifierSubExpression =
     Program 0
       [MustacheStatement 1 (PathExpression 2 ''this.m'' [''m''] True False)
          [SubExpression 4 (PathExpression 2 ''modifier'' [''modifier''] False False)
             [StringLiteral 3 ''my-modifier''] []] []] []"

text \<open>
  \<open>amdGrows st st'\<close>: going from \<open>st\<close> to \<open>st'\<close> keeps \<open>amdConsistent\<close> and only adds
  members to \<open>emittedAMDDeps\<close>.
\<close>

definition amdGrows :: "TState \<Rightarrow> TState \<Rightarrow> bool" where
  "amdGrows st st' =
     ((amdConsistent st \<longrightarrow> amdConsistent st') \<and> emittedAMDDeps st \<subseteq> emittedAMDDeps st')"

text \<open>
  A block \<open>{{#parent as |x|}}{{component x}}{{/parent}}\<close>, a Resolver for which \<open>parent\<close> is
  a template-only component that yields a component in its first slot, an environment
  with locals, and the events of a walk of the document at the nodes that have handlers.
\<close>

definition yieldingResolution :: ComponentResolution where
  "yieldingResolution =
     \<lparr> jsModule = None,
       hbsModule = Some \<lparr> runtimeName = ''app/components/parent'',
                          absPath = ''/app/components/parent.hbs'' \<rparr>,
       yieldsComponents = [YCBool True], yieldsArguments = [],
       argumentsAreComponents = [], nameHint = ''Parent'' \<rparr>"

definition yieldingHost :: Host where
  "yieldingHost =
     \<lparr> resolver =
         (\<lambda>calls c. case c of
            resolveMustache name hasArgs file l \<Rightarrow>
              if name = ''parent'' then Some (Component yieldingResolution) else None
          | _ \<Rightarrow> None),
       bindName = (\<lambda>requests r. bindHint r),
       explicitRelative = (\<lambda>dir p. p),
       dirname = (\<lambda>p. p),
       buildersPath = (\<lambda>n. PathExpression 0 n (split_on CHR ''.'' n) False False),
       buildersMustache = (\<lambda>n. MustacheStatement 0 n [] []) \<rparr>"

definition localsEnv :: Env where
  "localsEnv =
     \<lparr> filename = ''app.hbs'', contents = ''text'', strict = None, locals = Some [''y''] \<rparr>"

definition yieldingBlock :: Node where
  "yieldingBlock =
     Program 0
       [BlockStatement 1 (PathExpression 2 ''parent'' [''parent''] False False) [] []
          (Program 3
             [MustacheStatement 4 (PathExpression 5 ''component'' [''component''] False False)
                [PathExpression 6 ''x'' [''x''] False False] []]
             [''x''])
          None]
       []"

definition yieldingWalk :: "Event list" where
  "yieldingWalk =
     [Enter [], Enter [0], Enter [0, 1], Enter [0, 1, 0],
      Exit [0, 1, 0], Exit [0, 1], Exit [0], Exit []]"

definition yieldingMarker :: "ExitClosure ComponentBlockMarker" where
  "yieldingMarker =
     \<lparr> resolution = yieldingResolution, markerArguments = [],
       exit = BlockExit (Some ''parent'') [0] \<rparr>"

text \<open>
  The state of a traversal of that document once \<open>parent\<close> is resolved and its template
  registered, with a given scope stack and log of Resolver calls.
\<close>

definition yieldingState :: "ExitClosure ScopeStack \<Rightarrow> ResolverCall list \<Rightarrow> TState" where
  "yieldingState stack calls =
     \<lparr> doc = yieldingBlock, scopeStack = stack,
       emittedAMDDeps = {''app/components/parent''}, emittedLexicalBindings = Map.empty,
       resolverCalls = calls, bindImports = [],
       emittedExpressions =
         [\<lparr> importSpecifier = ''/app/components/parent.hbs'', importHint = ''parent'',
            defineName = ''app/components/parent'' \<rparr>] \<rparr>"

section \<open>Properties of the scope stack\<close>

lemma split_on_none: "c \<notin> set s \<Longrightarrow> split_on c s = [s]"
  by (induction s) auto

lemma indexOf_None_iff: "indexOf xs x = None \<longleftrightarrow> x \<notin> set xs"
  by (induction xs) auto

lemma nth_opt_Cons_0 [simp]: "nth_opt (x # xs) 0 = Some x"
  by (simp add: nth_opt_def)

lemma safeComponentAt_unbound:
  "n \<notin> set bps \<Longrightarrow> safeComponentAt (n # ps) (blockParams bps) e = None"
  by (cases e) (auto simp: safeComponentAt_def indexOf_None_iff[symmetric] split: option.splits)

lemma safeComponentAt_marker_first: "safeComponentAt parts (componentBlockMarker m) e = None"
  by (simp add: safeComponentAt_def)

lemma safeComponentAt_frame_second: "safeComponentAt parts e (blockParams b) = None"
  by (cases e) (simp_all add: safeComponentAt_def)

text \<open>The loop passes over a prefix of the stack in which no pair binds the name.\<close>

lemma loop_skip:
  "noBindingPair n pre \<Longrightarrow>
   safeComponentLoop (n # ps) (pre @ blockParams bps # rest) =
     (fst (safeComponentLoop (n # ps) (blockParams bps # rest)),
      pre @ snd (safeComponentLoop (n # ps) (blockParams bps # rest)))"
proof (induction n pre rule: noBindingPair.induct)
  case (1 n)
  then show ?case by simp
next
  case (2 n e)
  then show ?case by (simp add: safeComponentAt_frame_second split: prod.splits)
next
  case (3 n b m rest')
  then show ?case by (simp add: safeComponentAt_unbound split: prod.splits)
next
  case (4 n b b' rest')
  then show ?case by (simp add: safeComponentAt_frame_second split: prod.splits)
next
  case (5 n m e rest')
  then show ?case by (simp add: safeComponentAt_marker_first split: prod.splits)
qed

lemma loop_hit:
  "safeComponentAt parts (blockParams bps) (componentBlockMarker m) = Some (r, m') \<Longrightarrow>
   safeComponentLoop parts (blockParams bps # componentBlockMarker m # post) =
     (r, blockParams bps # componentBlockMarker m' # post)"
  by simp

lemma at_yields_component:
  "indexOf bps n = Some i \<Longrightarrow> nth_opt (yieldsComponents (resolution m)) i = Some (YCBool True) \<Longrightarrow>
   safeComponentAt [n] (blockParams bps) (componentBlockMarker m) = Some (True, m)"
  by (simp add: safeComponentAt_def)

lemma at_yields_argument:
  "indexOf bps n = Some i \<Longrightarrow> nth_opt (yieldsComponents (resolution m)) i \<noteq> Some (YCBool True) \<Longrightarrow>
   nth_opt (yieldsArguments (resolution m)) i = Some (YAString X) \<Longrightarrow>
   safeComponentAt [n] (blockParams bps) (componentBlockMarker m) = Some (True, pushArgument X m)"
  by (simp add: safeComponentAt_def)

lemma inScope_one_segment:
  "CHR ''.'' \<notin> set name \<Longrightarrow> safeComponentInScope name stack = safeComponentLoop [name] stack"
  by (simp add: safeComponentInScope_def split_on_none)

lemma safe_at_innermost_pair:
  assumes "CHR ''.'' \<notin> set name" and "noBindingPair name pre"
    and "safeComponentAt [name] (blockParams bps) (componentBlockMarker m) = Some (r, m')"
  shows "safeComponentInScope name (pre @ blockParams bps # componentBlockMarker m # post) =
           (r, pre @ blockParams bps # componentBlockMarker m' # post)"
  using assms by (simp add: inScope_one_segment loop_skip loop_hit del: safeComponentLoop.simps)

text \<open>A query never removes an argument from a marker: the lists are append-only.\<close>

lemma at_appends_only:
  "safeComponentAt parts here next = Some (r, m') \<Longrightarrow>
   \<exists>m. next = componentBlockMarker m \<and> set (markerArguments m) \<subseteq> set (markerArguments m')"
  by (cases here; cases "next")
     (auto simp: safeComponentAt_def pushArgument_def
           split: option.splits if_splits YieldsComponent.splits YieldsArgument.splits)

lemma markerArgumentsAt_Cons_Suc [simp]:
  "markerArgumentsAt (Suc k) (e # s) = markerArgumentsAt k s"
  by (simp add: markerArgumentsAt_def nth_opt_def)

lemma markerArgumentsAt_Cons_0 [simp]:
  "markerArgumentsAt 0 (e # s) =
     (case e of componentBlockMarker m \<Rightarrow> markerArguments m | _ \<Rightarrow> [])"
  by (simp add: markerArgumentsAt_def nth_opt_def)

lemma markerArgumentsAt_append:
  "markerArgumentsAt (length pre + k) (pre @ s) = markerArgumentsAt k s"
  by (induction pre) simp_all

lemma loop_appends_only:
  "set (markerArgumentsAt k s) \<subseteq> set (markerArgumentsAt k (snd (safeComponentLoop parts s)))"
proof (induction parts s arbitrary: k rule: safeComponentLoop.induct)
  case (1 parts here "next" rest)
  show ?case
  proof (cases "safeComponentAt parts here next")
    case None
    show ?thesis
    proof (cases k)
      case 0
      then show ?thesis using None by (simp add: case_prod_beta)
    next
      case (Suc j)
      then show ?thesis using None 1[OF None, of j] by (simp add: case_prod_beta)
    qed
  next
    case (Some a)
    obtain r m' where a: "a = (r, m')" by (cases a)
    from at_appends_only[OF Some[unfolded a]] obtain m where
      m: "next = componentBlockMarker m" "set (markerArguments m) \<subseteq> set (markerArguments m')"
      by blast
    show ?thesis
    proof (cases k)
      case 0
      then show ?thesis using Some a by simp
    next
      case (Suc j)
      then show ?thesis using Some a m by (cases j) simp_all
    qed
  qed
qed simp_all

lemma query_appends_only:
  "set (markerArgumentsAt k s) \<subseteq> set (markerArgumentsAt k (snd (safeComponentInScope q s)))"
  by (simp add: safeComponentInScope_def Let_def loop_appends_only)

lemma queryAll_appends_only:
  "set (markerArgumentsAt k s) \<subseteq> set (markerArgumentsAt k (queryAll names s))"
proof (induction names arbitrary: s)
  case Nil
  then show ?case by (simp add: queryAll_def)
next
  case (Cons q names)
  have "set (markerArgumentsAt k s)
          \<subseteq> set (markerArgumentsAt k (snd (safeComponentInScope q s)))"
    by (rule query_appends_only)
  also have "\<dots> \<subseteq> set (markerArgumentsAt k (queryAll names (snd (safeComponentInScope q s))))"
    by (rule Cons.IH)
  finally show ?case by (simp add: queryAll_def)
qed

lemma pop_marked:
  "pop recordExit (blockParams bps # componentBlockMarker m # rest, log) = (rest, log @ [m])"
  by (simp add: pop_def recordExit_def)

lemma resolveLocator_path:
  "resolveLocator host (PathLocator name) moduleName l because st =
     (if fst (safeComponentInScope name (scopeStack st))
      then (None, st\<lparr> scopeStack := snd (safeComponentInScope name (scopeStack st)) \<rparr>)
      else callResolver host (resolveComponentHelper (PathLocator name) moduleName l because)
             (st\<lparr> scopeStack := snd (safeComponentInScope name (scopeStack st)) \<rparr>))"
  by (simp add: resolveLocator_def case_prod_beta)

text \<open>
  Where the innermost pair (frame, marker) binding a one-segment name binds it at slot
  \<open>i\<close> (the slot \<open>indexOf\<close> finds) and the marker's resolution has
  \<open>yieldsComponents[i] = true\<close>, \<open>safeComponentInScope\<close> answers true and changes nothing,
  and \<open>handleComponentHelper\<close> on the path returns null with the state, and so the log of
  Resolver calls, as it was. This is about a frame that has its marker directly below
  it; whether the frame of a marked block is in that position is the visitor's doing.
\<close>

lemma safe_where_marker_is_adjacent:
  assumes "CHR ''.'' \<notin> set name"
    and "noBindingPair name pre"
    and "indexOf bps name = Some i"
    and "nth_opt (yieldsComponents (resolution m)) i = Some (YCBool True)"
    and "scopeStack st = pre @ blockParams bps # componentBlockMarker m # post"
  shows "safeComponentInScope name (scopeStack st) = (True, scopeStack st) \<and>
         handleComponentHelper host (PathExpression l name parts th dt) moduleName because st
           = (None, st) \<and>
         resolverCalls (snd (handleComponentHelper host (PathExpression l name parts th dt)
                               moduleName because st)) = resolverCalls st"
proof -
  have safe: "safeComponentInScope name (scopeStack st) = (True, scopeStack st)"
    using assms by (simp add: safe_at_innermost_pair at_yields_component)
  then show ?thesis
    by (simp add: resolveLocator_path)
qed

lemma safe_where_marker_is_adjacent_example:
  "safeComponentInScope ''child''
     [blockParams [''item''], blockParams [''child''],
      componentBlockMarker (exampleMarker [YCBool True] []), blockParams []]
   = (True, [blockParams [''item''], blockParams [''child''],
      componentBlockMarker (exampleMarker [YCBool True] []), blockParams []]) \<and>
   handleComponentHelper exampleHost (PathExpression 7 ''child'' [''child''] False False)
     ''app.hbs'' None
     ((initialState (TextNode 0 ''x''))\<lparr> scopeStack :=
        [blockParams [''item''], blockParams [''child''],
         componentBlockMarker (exampleMarker [YCBool True] []), blockParams []] \<rparr>)
   = (None, (initialState (TextNode 0 ''x''))\<lparr> scopeStack :=
        [blockParams [''item''], blockParams [''child''],
         componentBlockMarker (exampleMarker [YCBool True] []), blockParams []] \<rparr>)"
  using safe_where_marker_is_adjacent
    [where name = "''child''" and pre = "[blockParams [''item'']]" and bps = "[''child'']"
       and i = 0 and m = "exampleMarker [YCBool True] []" and post = "[blockParams []]"
       and st = "(initialState (TextNode 0 ''x''))\<lparr> scopeStack :=
        [blockParams [''item''], blockParams [''child''],
         componentBlockMarker (exampleMarker [YCBool True] []), blockParams []] \<rparr>"
       and host = exampleHost and l = 7 and parts = "[''child'']" and th = False and dt = False
       and moduleName = "''app.hbs''" and because = None]
  by (simp add: exampleMarker_def exampleResolution_def nth_opt_def)

text \<open>
  C1, as stated, fails: when the slot has both \<open>yieldsComponents[i] = true\<close> and
  \<open>yieldsArguments[i] = "target"\<close>, the first test returns true and nothing is appended
  to the marker's list.
\<close>

theorem forwarded_argument_counterexample:
  "indexOf [''child''] ''child'' = Some 0 \<and>
   nth_opt (yieldsArguments (resolution (exampleMarker [YCBool True] [YAString ''target'']))) 0
     = Some (YAString ''target'') \<and>
   safeComponentInScope ''child''
     [blockParams [''child''],
      componentBlockMarker (exampleMarker [YCBool True] [YAString ''target''])]
   = (True, [blockParams [''child''],
      componentBlockMarker (exampleMarker [YCBool True] [YAString ''target''])]) \<and>
   markerArgumentsAt 1 (snd (safeComponentInScope ''child''
     [blockParams [''child''],
      componentBlockMarker (exampleMarker [YCBool True] [YAString ''target''])])) = []"
  by (simp add: safeComponentInScope_def safeComponentAt_def exampleMarker_def
        exampleResolution_def nth_opt_def markerArgumentsAt_def Let_def)

text \<open>
  C1, amended. Where the innermost pair (frame, marker) binding a one-segment name binds
  it at slot \<open>i\<close> (the slot \<open>indexOf\<close> finds), \<open>yieldsComponents[i]\<close> is not \<open>true\<close> and
  \<open>yieldsArguments[i]\<close> is a string \<open>X\<close>: \<open>safeComponentInScope\<close> answers true and
  appends \<open>X\<close> to that marker's list, changing nothing else; \<open>handleComponentHelper\<close> on the
  path returns null and the log of Resolver calls is as it was; every later run of
  queries leaves \<open>X\<close> in that marker's list; and the pop of the block's frame hands the marker, with
  \<open>X\<close>, to the exit callback and removes both the frame and the marker.
\<close>

theorem forwarded_argument_is_recorded:
  assumes "CHR ''.'' \<notin> set name"
    and "noBindingPair name pre"
    and "indexOf bps name = Some i"
    and "nth_opt (yieldsComponents (resolution m)) i \<noteq> Some (YCBool True)"
    and "nth_opt (yieldsArguments (resolution m)) i = Some (YAString X)"
    and "scopeStack st = pre @ blockParams bps # componentBlockMarker m # post"
  shows "safeComponentInScope name (scopeStack st)
           = (True, pre @ blockParams bps # componentBlockMarker (pushArgument X m) # post) \<and>
         markerArguments (pushArgument X m) = markerArguments m @ [X] \<and>
         handleComponentHelper host (PathExpression l name parts th dt) moduleName because st
           = (None, st\<lparr> scopeStack :=
                pre @ blockParams bps # componentBlockMarker (pushArgument X m) # post \<rparr>) \<and>
         resolverCalls (snd (handleComponentHelper host (PathExpression l name parts th dt)
                               moduleName because st)) = resolverCalls st \<and>
         X \<in> set (markerArgumentsAt (length pre + 1) (queryAll names
                (pre @ blockParams bps # componentBlockMarker (pushArgument X m) # post))) \<and>
         pop recordExit (blockParams bps # componentBlockMarker (pushArgument X m) # post, log)
           = (post, log @ [pushArgument X m])"
proof -
  let ?stack' = "pre @ blockParams bps # componentBlockMarker (pushArgument X m) # post"
  have safe: "safeComponentInScope name (scopeStack st) = (True, ?stack')"
    using assms by (simp add: safe_at_innermost_pair at_yields_argument)
  have helper: "handleComponentHelper host (PathExpression l name parts th dt) moduleName because st
                  = (None, st\<lparr> scopeStack := ?stack' \<rparr>)"
    using safe by (simp add: resolveLocator_path)
  have "X \<in> set (markerArgumentsAt (length pre + 1) ?stack')"
    unfolding markerArgumentsAt_append by (simp add: pushArgument_def)
  then have later: "X \<in> set (markerArgumentsAt (length pre + 1) (queryAll names ?stack'))"
    using queryAll_appends_only by blast
  show ?thesis
    using safe helper later by (simp add: pop_marked pushArgument_def)
qed

theorem forwarded_argument_is_recorded_witness:
  "safeComponentInScope ''child''
     [blockParams [''item''], blockParams [''child''],
      componentBlockMarker (exampleMarker [] [YAString ''target'']), blockParams []]
   = (True, [blockParams [''item''], blockParams [''child''],
      componentBlockMarker (pushArgument ''target'' (exampleMarker [] [YAString ''target''])),
      blockParams []]) \<and>
   markerArguments (pushArgument ''target'' (exampleMarker [] [YAString ''target'']))
     = [''target'']"
  using forwarded_argument_is_recorded
    [where name = "''child''" and pre = "[blockParams [''item'']]" and bps = "[''child'']"
       and i = 0 and m = "exampleMarker [] [YAString ''target'']" and post = "[blockParams []]"
       and X = "''target''"
       and st = "(initialState (TextNode 0 ''x''))\<lparr> scopeStack :=
        [blockParams [''item''], blockParams [''child''],
         componentBlockMarker (exampleMarker [] [YAString ''target'']), blockParams []] \<rparr>"]
  by (simp add: exampleMarker_def exampleResolution_def nth_opt_def)

text \<open>
  C2. The search stops at the innermost pair (frame, marker) that binds the first
  segment, but a frame that binds it and has no marker behind it is passed over: here the
  innermost binding of \<open>x\<close> is a plain frame, and the answer is taken from the marked
  frame outside it.
\<close>

theorem unmarked_binding_is_passed_over:
  "inScope ''x'' [blockParams [''x'']] \<and>
   safeComponentInScope ''x''
     [blockParams [''x''], blockParams [''x''],
      componentBlockMarker (exampleMarker [YCBool True] []), blockParams []]
   = (True, [blockParams [''x''], blockParams [''x''],
      componentBlockMarker (exampleMarker [YCBool True] []), blockParams []])"
  by (simp add: safeComponentInScope_def safeComponentAt_def exampleMarker_def
        exampleResolution_def nth_opt_def Let_def)

section \<open>The marker invariant\<close>

lemma pop_unmarked_single: "pop recordExit ([blockParams bps], log) = ([], log)"
  by (simp add: pop_def)

lemma pop_unmarked:
  "pop recordExit (blockParams bps # blockParams bps' # rest, log) = (blockParams bps' # rest, log)"
  by (simp add: pop_def)

lemma pop_empty: "pop recordExit ([], log) = ([], log)"
  by (simp add: pop_def)

lemma pop_keeps_invariant:
  assumes "markersBelowOwnFrame s os"
  shows "markersBelowOwnFrame (fst (pop recordExit (s, log)))
           (drop (length s - length (fst (pop recordExit (s, log)))) os) \<and>
         mset (markersOf (fst (pop recordExit (s, log)))) + mset (snd (pop recordExit (s, log)))
           = mset (markersOf s) + mset log"
proof (cases "zip s os" rule: belowOwnFrame.cases)
  case 1
  with assms have "s = []" by (auto simp: markersBelowOwnFrame_def)
  with assms show ?thesis by (simp add: pop_empty markersBelowOwnFrame_def)
next
  case (2 m b rest)
  with assms show ?thesis by (simp add: markersBelowOwnFrame_def)
next
  case (3 bps b)
  with assms have "s = [blockParams bps]" "os = [b]"
    by (cases s; cases os; simp add: markersBelowOwnFrame_def; cases "tl s"; cases "tl os"; simp)+
  with assms show ?thesis by (simp add: pop_unmarked_single markersBelowOwnFrame_def)
next
  case (4 bps b bps' b' rest)
  then obtain s2 os2 where "s = blockParams bps # blockParams bps' # s2" "os = b # b' # os2"
    "zip s2 os2 = rest"
    by (cases s; cases os; simp; cases "tl s"; cases "tl os"; simp)
  with assms 4 show ?thesis by (simp add: pop_unmarked markersBelowOwnFrame_def)
next
  case (5 bps b m b' rest)
  then obtain s2 os2 where "s = blockParams bps # componentBlockMarker m # s2" "os = b # b' # os2"
    "zip s2 os2 = rest"
    by (cases s; cases os; simp; cases "tl s"; cases "tl os"; simp)
  with assms 5 show ?thesis by (simp add: pop_marked markersBelowOwnFrame_def)
qed

lemma invariant_push:
  "markersBelowOwnFrame s os \<Longrightarrow> markersBelowOwnFrame (blockParams bps # s) (b # os)"
  by (cases "zip s os" rule: belowOwnFrame.cases) (auto simp: markersBelowOwnFrame_def)

lemma invariant_enter_push:
  "markersBelowOwnFrame s os \<Longrightarrow>
   markersBelowOwnFrame (blockParams bps # componentBlockMarker m # s) (b # b # os)"
  by (simp add: markersBelowOwnFrame_def)

lemma runOps_accounting:
  "paired ops \<Longrightarrow> markersBelowOwnFrame s os \<Longrightarrow>
   (case runOps ops (s, log, os) of
      (s', log', os') \<Rightarrow>
        markersBelowOwnFrame s' os' \<and>
        mset (markersOf s') + mset log' = mset (enteredMarkers ops) + mset (markersOf s) + mset log)"
proof (induction ops arbitrary: s log os rule: paired.induct)
  case 1
  then show ?case by (simp add: runOps_def)
next
  case (2 b bps ops)
  from 2(3) have "markersBelowOwnFrame (blockParams bps # s) (b # os)"
    by (rule invariant_push)
  from 2(1)[OF _ this, of log] 2(2) show ?case
    by (simp add: runOps_def push_def)
next
  case (3 ops)
  from pop_keeps_invariant[OF 3(3), of log]
  have inv: "markersBelowOwnFrame (fst (pop recordExit (s, log)))
               (drop (length s - length (fst (pop recordExit (s, log)))) os)"
    and acc: "mset (markersOf (fst (pop recordExit (s, log)))) + mset (snd (pop recordExit (s, log)))
               = mset (markersOf s) + mset log"
    by simp_all
  from 3(1)[OF _ inv, of "snd (pop recordExit (s, log))"] 3(2) acc show ?case
    by (simp add: runOps_def case_prod_beta)
next
  case (4 b res ex b' bps ops)
  then have eq: "b = b'" and p: "paired ops" by simp_all
  from 4(3) have "markersBelowOwnFrame
      (blockParams bps #
       componentBlockMarker \<lparr> resolution = res, markerArguments = argumentsAreComponents res, exit = ex \<rparr> # s)
      (b # b # os)"
    by (rule invariant_enter_push)
  from 4(1)[OF p this, of log] eq show ?case
    by (simp add: runOps_def push_def enteringComponentBlock_def)
qed simp_all

text \<open>
  C9, as stated, fails for sequences in which \<open>enteringComponentBlock\<close> is not followed by
  a \<open>push\<close>: after two markers in a row, one \<open>pop\<close> takes the inner marker off without
  running its exit callback (only the outer one is recorded), and a marker entered alone
  sits on top of the stack, below no frame.
\<close>

theorem marker_invariant_counterexample:
  "runOps [EnterOp (1::nat) (exampleResolution [] []) (1::nat),
           EnterOp 2 (exampleResolution [] []) 2, PopOp] ([], [], [])
   = ([], [\<lparr> resolution = exampleResolution [] [], markerArguments = [], exit = 1 \<rparr>], []) \<and>
   \<not> markersBelowOwnFrame
       (fst (runOps [EnterOp (1::nat) (exampleResolution [] []) (1::nat)] ([], [], [])))
       (snd (snd (runOps [EnterOp (1::nat) (exampleResolution [] []) (1::nat)] ([], [], []))))"
  by (simp add: runOps_def enteringComponentBlock_def pop_def recordExit_def
        exampleResolution_def markersBelowOwnFrame_def)

text \<open>
  C9, amended. For every sequence of \<open>push\<close>, \<open>pop\<close> and \<open>enteringComponentBlock\<close> run from
  the empty stack in which every \<open>enteringComponentBlock\<close> is directly followed by the
  push of the block-params frame of the same block: every marker of the resulting stack
  sits directly below the block-params frame pushed for the same block, and every marker
  entered is either still on the stack or has had its exit callback called, exactly once
  in all. A \<open>pop\<close> removes the frame on top and, when a marker is then first, calls its
  exit callback and removes it too; otherwise it removes the frame alone.
\<close>

theorem marker_invariant:
  assumes "paired ops"
  shows "(case runOps ops ([], [], []) of
           (stack, log, owners) \<Rightarrow>
             markersBelowOwnFrame stack owners \<and>
             mset (markersOf stack) + mset log = mset (enteredMarkers ops)) \<and>
         pop recordExit (blockParams bps # componentBlockMarker m # rest, log0)
           = (rest, log0 @ [m]) \<and>
         pop recordExit (blockParams bps # blockParams bps' # rest, log0)
           = (blockParams bps' # rest, log0) \<and>
         pop recordExit ([blockParams bps], log0) = ([], log0)"
proof -
  have "markersBelowOwnFrame ([] :: 'b ScopeStack) ([] :: 'a list)"
    by (simp add: markersBelowOwnFrame_def)
  from runOps_accounting[OF assms this, of "[]"] show ?thesis
    by (simp add: pop_marked pop_unmarked pop_unmarked_single case_prod_beta)
qed

theorem marker_invariant_witness:
  "paired [PushOp (0::nat) [], EnterOp 1 (exampleResolution [] []) (1::nat), PushOp 1 [''x''],
           PopOp, PopOp] \<and>
   runOps [PushOp (0::nat) [], EnterOp 1 (exampleResolution [] []) (1::nat), PushOp 1 [''x'']]
     ([], [], [])
   = ([blockParams [''x''],
       componentBlockMarker
         \<lparr> resolution = exampleResolution [] [], markerArguments = [], exit = 1 \<rparr>,
       blockParams []], [], [1, 1, 0]) \<and>
   (case runOps [PushOp (0::nat) [], EnterOp 1 (exampleResolution [] []) (1::nat),
                 PushOp 1 [''x''], PopOp, PopOp] ([], [], []) of
      (stack, log, owners) \<Rightarrow>
        markersBelowOwnFrame stack owners \<and>
        mset (markersOf stack) + mset log
          = mset (enteredMarkers
              [PushOp (0::nat) [], EnterOp 1 (exampleResolution [] []) (1::nat),
               PushOp 1 [''x''], PopOp, PopOp]))"
proof -
  have p: "paired [PushOp (0::nat) [], EnterOp 1 (exampleResolution [] []) (1::nat),
                   PushOp 1 [''x''], PopOp, PopOp]"
    by simp
  have r: "runOps [PushOp (0::nat) [], EnterOp 1 (exampleResolution [] []) (1::nat),
                   PushOp 1 [''x'']] ([], [], [])
           = ([blockParams [''x''],
               componentBlockMarker
                 \<lparr> resolution = exampleResolution [] [], markerArguments = [], exit = 1 \<rparr>,
               blockParams []], [], [1, 1, 0])"
    by (simp add: runOps_def enteringComponentBlock_def push_def exampleResolution_def)
  have c: "case runOps [PushOp (0::nat) [], EnterOp 1 (exampleResolution [] []) (1::nat),
                 PushOp 1 [''x''], PopOp, PopOp] ([], [], []) of
      (stack, log, owners) \<Rightarrow>
        markersBelowOwnFrame stack owners \<and>
        mset (markersOf stack) + mset log
          = mset (enteredMarkers
              [PushOp (0::nat) [], EnterOp 1 (exampleResolution [] []) (1::nat),
               PushOp 1 [''x''], PopOp, PopOp])"
    by (rule marker_invariant[OF p, THEN conjunct1])
  from p r c show ?thesis by (intro conjI)
qed

section \<open>Properties of the locator classifier\<close>

text \<open>
  For a \<open>SubExpression\<close> whose path is \<open>component\<close> or \<open>ensure-safe-component\<close>, and for
  a \<open>MustacheStatement\<close> with at least one param or hash pair whose path is \<open>component\<close>,
  \<open>handleComponentHelper\<close> returns null and leaves the state, and so the log of Resolver
  calls, as it was. A \<open>MustacheStatement\<close> with no params and no hash pairs is classified
  as its path is.
\<close>

lemma classified_as_safe:
  "(isPathOriginal p ''component'' \<or> isPathOriginal p ''ensure-safe-component'' \<longrightarrow>
      handleComponentHelper host (SubExpression l p params pairs) moduleName because st = (None, st)) \<and>
   (isPathOriginal p ''component'' \<and> (params \<noteq> [] \<or> pairs \<noteq> []) \<longrightarrow>
      handleComponentHelper host (MustacheStatement l p params pairs) moduleName because st = (None, st)) \<and>
   handleComponentHelper host (MustacheStatement l p [] []) moduleName because st
     = handleComponentHelper host p moduleName because st"
  by auto

text \<open>
  C4. The \<open>SubExpression\<close> branch returns null for the targets \<open>component\<close> and
  \<open>ensure-safe-component\<close>; the \<open>MustacheStatement\<close> branch has the case \<open>component\<close>
  only. The output statement \<open>{{ensure-safe-component this.x}}\<close>, as the value of the
  argument \<open>@target\<close> of \<open>Parent\<close>, is classified as \<open>other\<close> and sent to the Resolver; the
  nested invocation \<open>(ensure-safe-component this.x)\<close> in the same place is not.
\<close>

theorem mustache_ensure_safe_component_is_resolved:
  "handleComponentHelper exampleHost
     (MustacheStatement 3
        (PathExpression 4 ''ensure-safe-component'' [''ensure-safe-component''] False False)
        [PathExpression 5 ''this.x'' [''x''] True False] [])
     ''app.hbs'' (Some \<lparr> componentName = Some ''Parent'', argumentName = ''target'' \<rparr>)
     (initialState (TextNode 0 ''x''))
   = (None, (initialState (TextNode 0 ''x''))
       \<lparr> resolverCalls :=
           [resolveComponentHelper OtherLocator ''app.hbs'' 3
              (Some \<lparr> componentName = Some ''Parent'', argumentName = ''target'' \<rparr>)] \<rparr>) \<and>
   handleComponentHelper exampleHost
     (SubExpression 3
        (PathExpression 4 ''ensure-safe-component'' [''ensure-safe-component''] False False)
        [PathExpression 5 ''this.x'' [''x''] True False] [])
     ''app.hbs'' (Some \<lparr> componentName = Some ''Parent'', argumentName = ''target'' \<rparr>)
     (initialState (TextNode 0 ''x''))
   = (None, initialState (TextNode 0 ''x''))"
  by (simp add: resolveLocator_def callResolver_def initialState_def isPathOriginal_def
        exampleHost_def)

section \<open>Properties of the binding emitter\<close>

text \<open>
  C6. For a resolution of kind \<open>error\<close>, \<open>emit\<close> calls \<open>reportError\<close> with the failure, the
  file name and the contents, and does nothing else: the setter is not applied, so the
  document is as it was, and no import is bound and no expression emitted. \<open>emit\<close>
  returns a state, so the traversal goes on.
\<close>

theorem emit_error_reports:
  "emit host opts env parentPath (Some (Error fail)) setter st
     = st\<lparr> resolverCalls := resolverCalls st @ [reportError fail (filename env) (contents env)] \<rparr> \<and>
   doc (emit host opts env parentPath (Some (Error fail)) setter st) = doc st \<and>
   bindImports (emit host opts env parentPath (Some (Error fail)) setter st) = bindImports st \<and>
   emittedExpressions (emit host opts env parentPath (Some (Error fail)) setter st)
     = emittedExpressions st"
  by (simp add: emit_def callResolver_def)

lemma emitAMD_consistent: "amdConsistent st \<Longrightarrow> amdConsistent (emitAMD host env dep st)"
  by (cases dep) (auto simp: amdConsistent_def emitAMD_def Let_def)

lemma emitAMD_grows: "emittedAMDDeps st \<subseteq> emittedAMDDeps (emitAMD host env dep st)"
  by (cases dep) (auto simp: emitAMD_def Let_def)

lemma emitAMD_again: "runtimeName d \<in> emittedAMDDeps st \<Longrightarrow> emitAMD host env (Some d) st = st"
  by (simp add: emitAMD_def)

lemma emitAMD_member: "runtimeName d \<in> emittedAMDDeps (emitAMD host env (Some d) st)"
  by (simp add: emitAMD_def Let_def)

lemma fold_emitAMD_consistent:
  "amdConsistent st \<Longrightarrow> amdConsistent (fold (emitAMD host env) deps st)"
  by (induction deps arbitrary: st) (simp_all add: emitAMD_consistent)

lemma fold_emitAMD_grows:
  "emittedAMDDeps st \<subseteq> emittedAMDDeps (fold (emitAMD host env) deps st)"
proof (induction deps arbitrary: st)
  case Nil
  then show ?case by simp
next
  case (Cons dep deps)
  have "emittedAMDDeps st \<subseteq> emittedAMDDeps (emitAMD host env dep st)"
    by (rule emitAMD_grows)
  also have "\<dots> \<subseteq> emittedAMDDeps (fold (emitAMD host env) deps (emitAMD host env dep st))"
    by (rule Cons.IH)
  finally show ?case by simp
qed

lemma distinct_count_le_1: "distinct xs \<Longrightarrow> count_list xs x \<le> 1"
  by (induction xs) (auto simp: count_list_0_iff)

section \<open>Properties of the visitor\<close>

lemma walk_noHandlers: "walk noHandlers events st = st"
  by (induction events arbitrary: st)
     (simp_all add: walk_def dispatch_def handlerFor_def noHandlers_def
        split: Event.splits option.splits Node.splits)

text \<open>
  C10. With \<open>strict\<close> set, the plugin is the strict no-op: its visitor holds no handler,
  and whatever nodes the walk enters and leaves, the state is as it was: the document is
  unchanged, no method of the Resolver is called, no import is bound and no expression
  is emitted.
\<close>

theorem strict_is_noop:
  assumes "strict env = Some True"
  shows "visitor (makeResolverTransform host opts env) = noHandlers \<and>
         pluginName (makeResolverTransform host opts env)
           = ''embroider-build-time-resolver-strict-noop'' \<and>
         walk (visitor (makeResolverTransform host opts env)) events st = st \<and>
         doc (walk (visitor (makeResolverTransform host opts env)) events st) = doc st \<and>
         resolverCalls (walk (visitor (makeResolverTransform host opts env)) events st)
           = resolverCalls st \<and>
         bindImports (walk (visitor (makeResolverTransform host opts env)) events st)
           = bindImports st \<and>
         emittedExpressions (walk (visitor (makeResolverTransform host opts env)) events st)
           = emittedExpressions st"
  using assms by (simp add: makeResolverTransform_def walk_noHandlers)

theorem strict_is_noop_witness:
  "strict strictEnv = Some True \<and>
   walk (visitor (makeResolverTransform exampleHost exampleOptions strictEnv))
     [Enter [], Enter [0], Exit [0], Exit []] (initialState modifierMustache)
   = initialState modifierMustache"
proof
  show s: "strict strictEnv = Some True"
    by (simp add: strictEnv_def)
  from strict_is_noop[OF s]
  show "walk (visitor (makeResolverTransform exampleHost exampleOptions strictEnv))
          [Enter [], Enter [0], Exit [0], Exit []] (initialState modifierMustache)
        = initialState modifierMustache"
    by blast
qed

lemma handlerFor_simps:
  "handlerFor v (Enter p) (Some (Program l body bps)) = onProgramEnter v"
  "handlerFor v (Exit p) (Some (Program l body bps)) = onProgramExit v"
  "handlerFor v (Enter p) (Some (MustacheStatement l pe ps hs)) = onMustacheStatementEnter v"
  "handlerFor v (Exit p) (Some (MustacheStatement l pe ps hs)) = None"
  "handlerFor v (Enter p) (Some (SubExpression l pe ps hs)) = onSubExpression v"
  "handlerFor v (Exit p) (Some (SubExpression l pe ps hs)) = None"
  by (simp_all add: handlerFor_def)

lemma visitor_not_strict:
  "strict env \<noteq> Some True \<Longrightarrow>
   visitor (makeResolverTransform host opts env) =
     \<lparr> onProgramEnter = Some (programEnter env),
       onProgramExit = Some (programExit host opts env),
       onBlockStatement = Some (blockStatement host opts env),
       onSubExpression = Some (subExpression host opts env),
       onMustacheStatementEnter = Some (mustacheStatementEnter host opts env),
       onElementModifierStatement = Some (elementModifierStatement host opts env),
       onElementNodeEnter = Some (elementNodeEnter host opts env),
       onElementNodeExit = Some (elementNodeExit host opts env) \<rparr>"
  by (simp add: makeResolverTransform_def)

lemma popScope_unmarked:
  "scopeStack st = [blockParams bps] \<Longrightarrow> popScope host opts env st = st\<lparr> scopeStack := [] \<rparr>"
  by (simp add: popScope_def pop_def)

lemma walk_Cons: "walk v (ev # events) st = walk v events (dispatch v ev st)"
  by (simp add: walk_def)

lemma walk_Nil: "walk v [] st = st"
  by (simp add: walk_def)

lemma dispatch_at:
  "nodeAt (doc st) p = Some n \<Longrightarrow>
   dispatch v (Enter p) st = (case handlerFor v (Enter p) (Some n) of None \<Rightarrow> st | Some h \<Rightarrow> h p st)"
  "nodeAt (doc st) p = Some n \<Longrightarrow>
   dispatch v (Exit p) st = (case handlerFor v (Exit p) (Some n) of None \<Rightarrow> st | Some h \<Rightarrow> h p st)"
  by (simp_all add: dispatch_def eventPath_def split: option.splits)

lemma initialState_sel:
  "doc (initialState d) = d"
  "scopeStack (initialState d) = []"
  "resolverCalls (initialState d) = []"
  "emittedLexicalBindings (initialState d) = Map.empty"
  by (simp_all add: initialState_def)

lemma programEnter_at:
  "nodeAt (doc st) p = Some (Program l body bps) \<Longrightarrow> locals env = None \<Longrightarrow>
   programEnter env p st = st\<lparr> scopeStack := blockParams bps # scopeStack st \<rparr>"
  by (simp add: programEnter_def pushScope_def push_def)

lemma programExit_at:
  "scopeStack st = [blockParams bps] \<Longrightarrow> locals env = None \<Longrightarrow>
   programExit host opts env p st = st\<lparr> scopeStack := [] \<rparr>"
  by (simp add: programExit_def popScope_unmarked)

lemma mustacheStatementEnter_unscoped:
  "nodeAt (doc st) p =
     Some (MustacheStatement l (PathExpression pl original [part] False dt) params pairs) \<Longrightarrow>
   \<not> inScope part (scopeStack st) \<Longrightarrow>
   original \<noteq> ''component'' \<Longrightarrow> original \<noteq> ''helper'' \<Longrightarrow>
   mustacheStatementEnter host opts env p st =
     (case callResolver host
             (resolveMustache original (length params > 0 \<or> length pairs > 0) (filename env) pl)
             st of
        (res, st1) \<Rightarrow>
          (let st2 = emit host opts env p res setPath st1 in
           case res of
             Some (Component c) \<Rightarrow>
               handleDynamicComponentArguments host opts env
                 (pathOriginalAt (doc st2) p) (argumentsAreComponents c)
                 (extendPath HashPairsOf p (doc st2)) st2
           | _ \<Rightarrow> st2))"
  by (simp add: mustacheStatementEnter_def inScopeRoot_def nth_opt_def)

lemma mustacheStatementEnter_this:
  "nodeAt (doc st) p =
     Some (MustacheStatement l (PathExpression pl original [part] True dt) params pairs) \<Longrightarrow>
   \<not> inScope part (scopeStack st) \<Longrightarrow>
   mustacheStatementEnter host opts env p st = st"
  by (simp add: mustacheStatementEnter_def inScopeRoot_def nth_opt_def)

lemma subExpression_modifier:
  "nodeAt (doc st) p =
     Some (SubExpression l (PathExpression pl ''modifier'' [part] False dt) (param # params) pairs) \<Longrightarrow>
   \<not> inScope part (scopeStack st) \<Longrightarrow>
   subExpression host opts env p st = handleDynamicModifier host param (filename env) st"
  by (simp add: subExpression_def inScopeRoot_def nth_opt_def)

text \<open>
  C3. The handler of \<open>MustacheStatement\<close> has the cases \<open>component\<close> and \<open>helper\<close> and none
  for \<open>modifier\<close>: on the document \<open>{{modifier "my-modifier"}}\<close> the only call of the
  Resolver is \<open>resolveMustache\<close> with the name \<open>modifier\<close>, and \<open>resolveDynamicModifier\<close> is
  not called. The handler of \<open>SubExpression\<close> on \<open>(modifier "my-modifier")\<close> does call
  \<open>resolveDynamicModifier\<close> with the literal, and nothing else.
\<close>

theorem mustache_modifier_resolved_as_value:
  "resolverCalls (walk (visitor (makeResolverTransform exampleHost exampleOptions exampleEnv))
      [Enter [], Enter [0], Exit [0], Exit []] (initialState modifierMustache))
   = [resolveMustache ''modifier'' True ''app.hbs'' 2] \<and>
   resolverCalls (walk (visitor (makeResolverTransform exampleHost exampleOptions exampleEnv))
      [Enter [], Enter [0], Enter [0, 1], Exit [0, 1], Exit [0], Exit []]
      (initialState modifierSubExpression))
   = [resolveDynamicModifier (LiteralLocator ''my-modifier'') ''app.hbs'' 3]"
proof -
  let ?V = "visitor (makeResolverTransform exampleHost exampleOptions exampleEnv)"
  have V: "?V = \<lparr> onProgramEnter = Some (programEnter exampleEnv),
       onProgramExit = Some (programExit exampleHost exampleOptions exampleEnv),
       onBlockStatement = Some (blockStatement exampleHost exampleOptions exampleEnv),
       onSubExpression = Some (subExpression exampleHost exampleOptions exampleEnv),
       onMustacheStatementEnter = Some (mustacheStatementEnter exampleHost exampleOptions exampleEnv),
       onElementModifierStatement = Some (elementModifierStatement exampleHost exampleOptions exampleEnv),
       onElementNodeEnter = Some (elementNodeEnter exampleHost exampleOptions exampleEnv),
       onElementNodeExit = Some (elementNodeExit exampleHost exampleOptions exampleEnv) \<rparr>"
    by (rule visitor_not_strict) (simp add: exampleEnv_def)
  have noLocals: "locals exampleEnv = None"
    by (simp add: exampleEnv_def)
  let ?a0 = "initialState modifierMustache"
  let ?a1 = "?a0\<lparr> scopeStack := [blockParams []] \<rparr>"
  let ?a2 = "?a1\<lparr> resolverCalls := [resolveMustache ''modifier'' True ''app.hbs'' 2] \<rparr>"
  let ?mA = "MustacheStatement 1 (PathExpression 2 ''modifier'' [''modifier''] False False)
          [StringLiteral 3 ''my-modifier''] []"
  have rootA: "nodeAt (doc ?a0) [] = Some (Program 0 [?mA] [])"
      "nodeAt (doc ?a2) [] = Some (Program 0 [?mA] [])"
    by (simp_all add: modifierMustache_def initialState_def)
  have kidA: "nodeAt (doc ?a1) [0] = Some ?mA" "nodeAt (doc ?a2) [0] = Some ?mA"
    by (simp_all add: modifierMustache_def nth_opt_def initialState_def)
  have a1: "dispatch ?V (Enter []) ?a0 = ?a1"
    unfolding V dispatch_at(1)[OF rootA(1)]
    by (simp add: handlerFor_simps programEnter_at[OF rootA(1) noLocals] initialState_sel)
  have a2: "dispatch ?V (Enter [0]) ?a1 = ?a2"
    unfolding V dispatch_at(1)[OF kidA(1)]
    by (simp add: handlerFor_simps mustacheStatementEnter_unscoped[OF kidA(1)] callResolver_def
          exampleEnv_def exampleHost_def emit_def initialState_sel)
  have a3: "dispatch ?V (Exit [0]) ?a2 = ?a2"
    unfolding V dispatch_at(2)[OF kidA(2)] by (simp add: handlerFor_simps)
  have a4: "dispatch ?V (Exit []) ?a2 = ?a2\<lparr> scopeStack := [] \<rparr>"
    unfolding V dispatch_at(2)[OF rootA(2)]
    by (simp add: handlerFor_simps programExit_at[OF _ noLocals] initialState_sel)
  have A: "resolverCalls (walk ?V [Enter [], Enter [0], Exit [0], Exit []] ?a0)
             = [resolveMustache ''modifier'' True ''app.hbs'' 2]"
    by (simp only: walk_Cons walk_Nil a1 a2 a3 a4) simp
  let ?b0 = "initialState modifierSubExpression"
  let ?b1 = "?b0\<lparr> scopeStack := [blockParams []] \<rparr>"
  let ?b2 = "?b1\<lparr> resolverCalls :=
               [resolveDynamicModifier (LiteralLocator ''my-modifier'') ''app.hbs'' 3] \<rparr>"
  let ?sB = "SubExpression 4 (PathExpression 2 ''modifier'' [''modifier''] False False)
             [StringLiteral 3 ''my-modifier''] []"
  let ?mB = "MustacheStatement 1 (PathExpression 2 ''this.m'' [''m''] True False) [?sB] []"
  have rootB: "nodeAt (doc ?b0) [] = Some (Program 0 [?mB] [])"
      "nodeAt (doc ?b2) [] = Some (Program 0 [?mB] [])"
    by (simp_all add: modifierSubExpression_def initialState_def)
  have kidB: "nodeAt (doc ?b1) [0] = Some ?mB" "nodeAt (doc ?b2) [0] = Some ?mB"
    by (simp_all add: modifierSubExpression_def nth_opt_def initialState_def)
  have subB: "nodeAt (doc ?b1) [0, 1] = Some ?sB" "nodeAt (doc ?b2) [0, 1] = Some ?sB"
    by (simp_all add: modifierSubExpression_def nth_opt_def initialState_def)
  have b1: "dispatch ?V (Enter []) ?b0 = ?b1"
    unfolding V dispatch_at(1)[OF rootB(1)]
    by (simp add: handlerFor_simps programEnter_at[OF rootB(1) noLocals] initialState_sel)
  have b2: "dispatch ?V (Enter [0]) ?b1 = ?b1"
    unfolding V dispatch_at(1)[OF kidB(1)]
    by (simp add: handlerFor_simps mustacheStatementEnter_this[OF kidB(1)])
  have notInScopeB: "\<not> inScope ''modifier'' (scopeStack ?b1)"
    by simp
  have "subExpression exampleHost exampleOptions exampleEnv [0, 1] ?b1
          = handleDynamicModifier exampleHost (StringLiteral 3 ''my-modifier'')
              (filename exampleEnv) ?b1"
    by (rule subExpression_modifier[OF subB(1) notInScopeB])
  also have "\<dots> = ?b2"
    by (simp add: callResolver_def exampleEnv_def initialState_sel)
  finally have b3: "dispatch ?V (Enter [0, 1]) ?b1 = ?b2"
    unfolding V dispatch_at(1)[OF subB(1)]
    by (simp only: handlerFor_simps Visitor.select_convs option.case)
  have b4: "dispatch ?V (Exit [0, 1]) ?b2 = ?b2"
    unfolding V dispatch_at(2)[OF subB(2)] by (simp add: handlerFor_simps)
  have b5: "dispatch ?V (Exit [0]) ?b2 = ?b2"
    unfolding V dispatch_at(2)[OF kidB(2)] by (simp add: handlerFor_simps)
  have b6: "dispatch ?V (Exit []) ?b2 = ?b2\<lparr> scopeStack := [] \<rparr>"
    unfolding V dispatch_at(2)[OF rootB(2)]
    by (simp add: handlerFor_simps programExit_at[OF _ noLocals] initialState_sel)
  have B: "resolverCalls (walk ?V
             [Enter [], Enter [0], Enter [0, 1], Exit [0, 1], Exit [0], Exit []] ?b0)
           = [resolveDynamicModifier (LiteralLocator ''my-modifier'') ''app.hbs'' 3]"
    by (simp only: walk_Cons walk_Nil b1 b2 b3 b4 b5 b6) simp
  from A B show ?thesis by (rule conjI)
qed

section \<open>The registrations of one traversal\<close>

lemma amdGrows_refl: "amdGrows st st"
  by (simp add: amdGrows_def)

lemma amdGrows_trans: "amdGrows st st1 \<Longrightarrow> amdGrows st1 st2 \<Longrightarrow> amdGrows st st2"
  by (auto simp: amdGrows_def)

lemma amdGrows_same:
  "emittedAMDDeps st' = emittedAMDDeps st \<Longrightarrow> emittedExpressions st' = emittedExpressions st \<Longrightarrow>
   amdGrows st st'"
  by (simp add: amdGrows_def amdConsistent_def)

lemma emitAMD_step: "amdGrows st (emitAMD host env dep st)"
  by (simp add: amdGrows_def emitAMD_consistent emitAMD_grows)

lemma callResolver_step: "amdGrows st (snd (callResolver host c st))"
  by (rule amdGrows_same) (simp_all add: callResolver_def)

lemma bindLexically_step: "amdGrows st (bindLexically host env p res m h setter st)"
  by (rule amdGrows_same) (simp_all add: bindLexically_def Let_def)

lemma emit_step: "amdGrows st (emit host opts env p res setter st)"
  by (auto simp: emit_def callResolver_step bindLexically_step emitAMD_step amdGrows_refl
           intro: amdGrows_trans[OF emitAMD_step emitAMD_step]
           split: option.splits Resolution.splits)

lemma scopeStack_update_step: "amdGrows st (st\<lparr> scopeStack := s \<rparr>)"
  by (rule amdGrows_same) simp_all

lemma resolveLocator_step: "amdGrows st (snd (resolveLocator host locator m l b st))"
  by (rule amdGrows_same)
     (simp_all add: resolveLocator_def callResolver_def case_prod_beta split: ComponentLocator.splits)

lemma handleComponentHelper_step: "amdGrows st (snd (handleComponentHelper host n m b st))"
  by (induction host n m b st rule: handleComponentHelper.induct)
     (simp_all add: resolveLocator_step amdGrows_refl)

lemma handleDynamicHelper_step: "amdGrows st (handleDynamicHelper host n m st)"
  by (cases n) (simp_all add: callResolver_step amdGrows_refl)

lemma handleDynamicModifier_step: "amdGrows st (handleDynamicModifier host n m st)"
  by (cases n) (simp_all add: callResolver_step amdGrows_refl)

lemma helper_then_emit_step:
  "amdGrows st (emit host opts env p res setter (snd (handleComponentHelper host n m b st)))"
  by (rule amdGrows_trans[OF handleComponentHelper_step emit_step])

lemma handleDynamicComponentArgument_step:
  "amdGrows st (handleDynamicComponentArgument host opts env c attrs name st)"
  by (simp add: handleDynamicComponentArgument_def case_prod_beta helper_then_emit_step
        amdGrows_refl split: option.splits)

lemma handleDynamicComponentArguments_step:
  "amdGrows st (handleDynamicComponentArguments host opts env c args attrs st)"
  unfolding handleDynamicComponentArguments_def
proof (induction args arbitrary: st)
  case Nil
  then show ?case by (simp add: amdGrows_refl)
next
  case (Cons a args)
  show ?case
    using amdGrows_trans[OF handleDynamicComponentArgument_step Cons.IH]
    by simp
qed

lemma runExit_step: "amdGrows st (runExit host opts env m st)"
  by (simp add: runExit_def handleDynamicComponentArguments_step split: ExitClosure.splits)

lemma popScope_step: "amdGrows st (popScope host opts env st)"
proof -
  have a: "amdGrows st (runExit host opts env m (st\<lparr> scopeStack := s \<rparr>))" for m s
    by (rule amdGrows_trans[OF scopeStack_update_step runExit_step])
  have b: "amdGrows st (runExit host opts env m (st\<lparr> scopeStack := s \<rparr>)\<lparr> scopeStack := s' \<rparr>)"
    for m s s'
    by (rule amdGrows_trans[OF a scopeStack_update_step])
  show ?thesis
    by (simp add: popScope_def pop_def Let_def a b scopeStack_update_step
          split: list.splits ScopeEntry.splits)
qed

lemma pushScope_step: "amdGrows st (pushScope bps st)"
  by (simp add: pushScope_def scopeStack_update_step)

lemma enterComponentBlock_step: "amdGrows st (enterComponentBlock c ex st)"
  by (simp add: enterComponentBlock_def scopeStack_update_step)

lemma programEnter_step: "amdGrows st (programEnter env p st)"
  by (auto simp: programEnter_def amdGrows_refl pushScope_step
           intro: amdGrows_trans[OF pushScope_step pushScope_step]
           split: option.splits Node.splits)

lemma programExit_step: "amdGrows st (programExit host opts env p st)"
  by (auto simp: programExit_def Let_def popScope_step
           intro: amdGrows_trans[OF popScope_step popScope_step]
           split: option.splits)

lemma resolver_then_emit_step:
  "amdGrows st (emit host opts env p res setter (snd (callResolver host c st)))"
  by (rule amdGrows_trans[OF callResolver_step emit_step])

lemma elementModifierStatement_step: "amdGrows st (elementModifierStatement host opts env p st)"
  by (simp add: elementModifierStatement_def case_prod_beta resolver_then_emit_step amdGrows_refl
        split: option.splits Node.splits)

lemma subExpression_step: "amdGrows st (subExpression host opts env p st)"
  by (simp add: subExpression_def case_prod_beta resolver_then_emit_step helper_then_emit_step
        handleDynamicHelper_step handleDynamicModifier_step amdGrows_refl
        split: option.splits Node.splits)

lemma resolver_emit_then:
  "(\<And>st2. amdGrows st2 (f st2)) \<Longrightarrow>
   amdGrows st (f (emit host opts env p res setter (snd (callResolver host c st))))"
  by (rule amdGrows_trans[OF resolver_then_emit_step])

lemma mustacheStatementEnter_step: "amdGrows st (mustacheStatementEnter host opts env p st)"
  by (simp add: mustacheStatementEnter_def case_prod_beta Let_def resolver_then_emit_step
        helper_then_emit_step handleDynamicHelper_step handleDynamicComponentArguments_step
        resolver_emit_then amdGrows_refl
        split: option.splits Node.splits Resolution.splits)

lemma blockStatement_step: "amdGrows st (blockStatement host opts env p st)"
  by (simp add: blockStatement_def case_prod_beta Let_def resolver_then_emit_step
        helper_then_emit_step enterComponentBlock_step resolver_emit_then amdGrows_refl
        split: option.splits Node.splits Resolution.splits)

lemma elementNodeEnter_step: "amdGrows st (elementNodeEnter host opts env p st)"
proof -
  have push: "amdGrows st st1 \<Longrightarrow> amdGrows st (pushScope bps st1)" for st1 bps
    by (rule amdGrows_trans[OF _ pushScope_step])
  have enter: "amdGrows st st1 \<Longrightarrow> amdGrows st (enterComponentBlock c ex st1)" for st1 c ex
    by (rule amdGrows_trans[OF _ enterComponentBlock_step])
  show ?thesis
    by (auto simp: elementNodeEnter_def case_prod_beta Let_def amdGrows_refl
             intro!: push enter resolver_then_emit_step
             split: option.splits Node.splits Resolution.splits)
qed

lemma elementNodeExit_step: "amdGrows st (elementNodeExit host opts env p st)"
  by (simp add: elementNodeExit_def popScope_step)

lemma dispatch_step:
  "amdGrows st (dispatch (visitor (makeResolverTransform host opts env)) ev st)"
  by (simp add: dispatch_def handlerFor_def makeResolverTransform_def noHandlers_def
        amdGrows_refl programEnter_step programExit_step blockStatement_step subExpression_step
        mustacheStatementEnter_step elementModifierStatement_step elementNodeEnter_step
        elementNodeExit_step
        split: Event.splits option.splits Node.splits)

lemma walk_step:
  "amdGrows st (walk (visitor (makeResolverTransform host opts env)) events st)"
proof (induction events arbitrary: st)
  case Nil
  then show ?case by (simp add: walk_def amdGrows_refl)
next
  case (Cons ev events)
  show ?case
    using amdGrows_trans[OF dispatch_step Cons.IH] by (simp add: walk_def)
qed

text \<open>
  C8. From a state in which the registered names are pairwise different and are the
  members of \<open>emittedAMDDeps\<close> (the state a traversal starts from is one), after any
  walk of the document with the plugin's visitor, and after any sequence of calls of
  \<open>emitAMD\<close>, every runtime name is registered by at most one emitted expression and
  \<open>emittedAMDDeps\<close> has only grown; a call of \<open>emitAMD\<close> with a dependency whose runtime
  name is already a member changes nothing, and so a second call with the same
  dependency changes nothing.
\<close>

theorem emitAMD_registers_once:
  assumes "amdConsistent st"
  shows "count_list (map defineName (emittedExpressions
           (walk (visitor (makeResolverTransform host opts env)) events st))) n \<le> 1 \<and>
         emittedAMDDeps st
           \<subseteq> emittedAMDDeps (walk (visitor (makeResolverTransform host opts env)) events st) \<and>
         count_list (map defineName (emittedExpressions (fold (emitAMD host env) deps st))) n \<le> 1 \<and>
         emittedAMDDeps st \<subseteq> emittedAMDDeps (fold (emitAMD host env) deps st) \<and>
         (runtimeName d \<in> emittedAMDDeps st \<longrightarrow> emitAMD host env (Some d) st = st) \<and>
         emitAMD host env (Some d) (emitAMD host env (Some d) st) = emitAMD host env (Some d) st"
proof -
  have w: "amdGrows st (walk (visitor (makeResolverTransform host opts env)) events st)"
    by (rule walk_step)
  with assms have "amdConsistent (walk (visitor (makeResolverTransform host opts env)) events st)"
    by (simp add: amdGrows_def)
  then have "distinct (map defineName (emittedExpressions
               (walk (visitor (makeResolverTransform host opts env)) events st)))"
    by (simp add: amdConsistent_def)
  then have c1: "count_list (map defineName (emittedExpressions
               (walk (visitor (makeResolverTransform host opts env)) events st))) n \<le> 1"
    by (rule distinct_count_le_1)
  have g1: "emittedAMDDeps st
              \<subseteq> emittedAMDDeps (walk (visitor (makeResolverTransform host opts env)) events st)"
    using w by (simp add: amdGrows_def)
  have "amdConsistent (fold (emitAMD host env) deps st)"
    using assms by (rule fold_emitAMD_consistent)
  then have "distinct (map defineName (emittedExpressions (fold (emitAMD host env) deps st)))"
    by (simp add: amdConsistent_def)
  then have c2: "count_list (map defineName (emittedExpressions (fold (emitAMD host env) deps st))) n \<le> 1"
    by (rule distinct_count_le_1)
  show ?thesis
    using c1 g1 c2 fold_emitAMD_grows[of st host env deps] emitAMD_member[of d host env st]
    by (simp add: emitAMD_again)
qed

theorem emitAMD_registers_once_witness:
  "amdConsistent (initialState modifierMustache) \<and>
   count_list (map defineName (emittedExpressions
     (walk (visitor (makeResolverTransform exampleHost exampleOptions exampleEnv))
        [Enter [], Enter [0], Exit [0], Exit []] (initialState modifierMustache))))
     ''app/helpers/my-helper'' \<le> 1 \<and>
   emittedExpressions (fold (emitAMD exampleHost exampleEnv) [Some exampleDep, None, Some exampleDep]
      (initialState modifierMustache))
   = [\<lparr> importSpecifier = ''/app/helpers/my-helper.js'', importHint = ''my-helper'',
         defineName = ''app/helpers/my-helper'' \<rparr>]"
proof -
  have c: "amdConsistent (initialState modifierMustache)"
    by (simp add: amdConsistent_def initialState_def)
  have e: "emittedExpressions (fold (emitAMD exampleHost exampleEnv)
               [Some exampleDep, None, Some exampleDep] (initialState modifierMustache))
           = [\<lparr> importSpecifier = ''/app/helpers/my-helper.js'', importHint = ''my-helper'',
                 defineName = ''app/helpers/my-helper'' \<rparr>]"
    by (simp add: initialState_def emitAMD_def exampleDep_def exampleHost_def
          exampleEnv_def relativeToFile_def Let_def)
  from emitAMD_registers_once[OF c, where host = exampleHost and opts = exampleOptions
         and env = exampleEnv and events = "[Enter [], Enter [0], Exit [0], Exit []]"
         and n = "''app/helpers/my-helper''"]
  have "count_list (map defineName (emittedExpressions
     (walk (visitor (makeResolverTransform exampleHost exampleOptions exampleEnv))
        [Enter [], Enter [0], Exit [0], Exit []] (initialState modifierMustache))))
     ''app/helpers/my-helper'' \<le> 1"
    by blast
  with c e show ?thesis by blast
qed

section \<open>A marked block in an environment with locals\<close>

lemma dispatch_to_handler:
  assumes "strict env \<noteq> Some True"
  shows
    "nodeAt (doc st) p = Some (Program l body bps) \<Longrightarrow>
       dispatch (visitor (makeResolverTransform host opts env)) (Enter p) st = programEnter env p st"
    "nodeAt (doc st) p = Some (Program l body bps) \<Longrightarrow>
       dispatch (visitor (makeResolverTransform host opts env)) (Exit p) st
         = programExit host opts env p st"
    "nodeAt (doc st) p = Some (BlockStatement l pe ps hs prog els) \<Longrightarrow>
       dispatch (visitor (makeResolverTransform host opts env)) (Enter p) st
         = blockStatement host opts env p st"
    "nodeAt (doc st) p = Some (BlockStatement l pe ps hs prog els) \<Longrightarrow>
       dispatch (visitor (makeResolverTransform host opts env)) (Exit p) st = st"
    "nodeAt (doc st) p = Some (MustacheStatement l pe ps hs) \<Longrightarrow>
       dispatch (visitor (makeResolverTransform host opts env)) (Enter p) st
         = mustacheStatementEnter host opts env p st"
    "nodeAt (doc st) p = Some (MustacheStatement l pe ps hs) \<Longrightarrow>
       dispatch (visitor (makeResolverTransform host opts env)) (Exit p) st = st"
  using assms
  by (simp_all add: dispatch_def eventPath_def handlerFor_def makeResolverTransform_def)

lemma programEnter_locals:
  "nodeAt (doc st) p = Some (Program l body bps) \<Longrightarrow> locals env = Some ls \<Longrightarrow>
   programEnter env p st = st\<lparr> scopeStack := blockParams bps # blockParams ls # scopeStack st \<rparr>"
  by (simp add: programEnter_def pushScope_def push_def)

lemma blockStatement_unscoped:
  "nodeAt (doc st) p =
     Some (BlockStatement l (PathExpression pl original [part] False dt) params pairs prog els) \<Longrightarrow>
   \<not> inScope part (scopeStack st) \<Longrightarrow> original \<noteq> ''component'' \<Longrightarrow>
   blockStatement host opts env p st =
     (let st2 = emit host opts env p
                  (fst (callResolver host (resolveMustache original True (filename env) pl) st))
                  setPath
                  (snd (callResolver host (resolveMustache original True (filename env) pl) st))
      in case fst (callResolver host (resolveMustache original True (filename env) pl) st) of
           Some (Component c) \<Rightarrow> enterComponentBlock c (BlockExit (Some part) p) st2
         | _ \<Rightarrow> st2)"
  by (simp add: blockStatement_def inScopeRoot_def nth_opt_def case_prod_beta)

lemma mustacheStatementEnter_component:
  "nodeAt (doc st) p =
     Some (MustacheStatement l (PathExpression pl ''component'' [part] False dt)
             (param # params) pairs) \<Longrightarrow>
   \<not> inScope part (scopeStack st) \<Longrightarrow>
   mustacheStatementEnter host opts env p st =
     emit host opts env p (fst (handleComponentHelper host param (filename env) None st))
       setParam0 (snd (handleComponentHelper host param (filename env) None st))"
  by (simp add: mustacheStatementEnter_def inScopeRoot_def nth_opt_def case_prod_beta)

lemma runExit_no_arguments: "markerArguments m = [] \<Longrightarrow> runExit host opts env m st = st"
  by (simp add: runExit_def handleDynamicComponentArguments_def split: ExitClosure.splits)

lemma popScope_frame:
  "scopeStack st = blockParams bps # blockParams bps' # rest \<Longrightarrow>
   popScope host opts env st = st\<lparr> scopeStack := blockParams bps' # rest \<rparr>"
  by (simp add: popScope_def pop_def)

lemma popScope_marked:
  "scopeStack st = blockParams bps # componentBlockMarker m # rest \<Longrightarrow>
   markerArguments m = [] \<Longrightarrow>
   popScope host opts env st = st\<lparr> scopeStack := rest \<rparr>"
  by (simp add: popScope_def pop_def runExit_no_arguments)

lemma yieldingBlock_nodes:
  assumes "doc st = yieldingBlock"
  shows "nodeAt (doc st) [] = Some (Program 0
       [BlockStatement 1 (PathExpression 2 ''parent'' [''parent''] False False) [] []
          (Program 3
             [MustacheStatement 4 (PathExpression 5 ''component'' [''component''] False False)
                [PathExpression 6 ''x'' [''x''] False False] []]
             [''x''])
          None]
       [])"
    and "nodeAt (doc st) [0] =
      Some (BlockStatement 1 (PathExpression 2 ''parent'' [''parent''] False False) [] []
          (Program 3
             [MustacheStatement 4 (PathExpression 5 ''component'' [''component''] False False)
                [PathExpression 6 ''x'' [''x''] False False] []]
             [''x''])
          None)"
    and "nodeAt (doc st) [0, 1] =
      Some (Program 3
             [MustacheStatement 4 (PathExpression 5 ''component'' [''component''] False False)
                [PathExpression 6 ''x'' [''x''] False False] []]
             [''x''])"
    and "nodeAt (doc st) [0, 1, 0] =
      Some (MustacheStatement 4 (PathExpression 5 ''component'' [''component''] False False)
                [PathExpression 6 ''x'' [''x''] False False] [])"
  using assms by (simp_all add: yieldingBlock_def nth_opt_def)

lemma yieldingState_sel: "doc (yieldingState stack calls) = yieldingBlock" "scopeStack (yieldingState stack calls) = stack"
  by (simp_all add: yieldingState_def)

lemma initial_sel:
  "doc ((initialState d)\<lparr> scopeStack := s \<rparr>) = d"
  "scopeStack ((initialState d)\<lparr> scopeStack := s \<rparr>) = s"
  "doc (initialState d) = d"
  by (simp_all add: initialState_def)

lemma locals_run:
  "walk (visitor (makeResolverTransform yieldingHost exampleOptions localsEnv)) yieldingWalk
     (initialState yieldingBlock)
   = yieldingState [] [resolveMustache ''parent'' True ''app.hbs'' 2,
             resolveComponentHelper (PathLocator ''x'') ''app.hbs'' 6 None]"
  "walk (visitor (makeResolverTransform yieldingHost exampleOptions localsEnv))
     [Enter [], Enter [0], Enter [0, 1]] (initialState yieldingBlock)
   = yieldingState [blockParams [''x''], blockParams [''y''], componentBlockMarker yieldingMarker,
          blockParams [], blockParams [''y'']]
       [resolveMustache ''parent'' True ''app.hbs'' 2]"
proof -
  let ?V = "visitor (makeResolverTransform yieldingHost exampleOptions localsEnv)"
  let ?rm = "resolveMustache ''parent'' True ''app.hbs'' 2"
  let ?rc = "resolveComponentHelper (PathLocator ''x'') ''app.hbs'' 6 None"
  let ?y = "blockParams [''y'']"
  let ?x = "blockParams [''x'']"
  let ?e = "blockParams []"
  let ?m = "componentBlockMarker yieldingMarker"
  let ?s0 = "initialState yieldingBlock"
  let ?s1 = "?s0\<lparr> scopeStack := [?e, ?y] \<rparr>"
  let ?s2 = "yieldingState [?m, ?e, ?y] [?rm]"
  let ?s3 = "yieldingState [?x, ?y, ?m, ?e, ?y] [?rm]"
  let ?s4 = "yieldingState [?x, ?y, ?m, ?e, ?y] [?rm, ?rc]"
  let ?s5 = "yieldingState [?e, ?y] [?rm, ?rc]"
  let ?s6 = "yieldingState [] [?rm, ?rc]"
  have ns: "strict localsEnv \<noteq> Some True" and ls: "locals localsEnv = Some [''y'']"
    and fn: "filename localsEnv = ''app.hbs''"
    by (simp_all add: localsEnv_def)
  note d = dispatch_to_handler[OF ns]
  have "programEnter localsEnv [] ?s0 = ?s1"
    unfolding programEnter_locals[OF yieldingBlock_nodes(1)[OF initial_sel(3)] ls]
    by (simp add: initialState_def)
  then have 1: "dispatch ?V (Enter []) ?s0 = ?s1"
    unfolding d(1)[OF yieldingBlock_nodes(1)[OF initial_sel(3)]] .
  have ni1: "\<not> inScope ''parent'' (scopeStack ?s1)"
    by (simp add: initialState_def)
  have nc: "''parent'' \<noteq> ''component''"
    by simp
  have "blockStatement yieldingHost exampleOptions localsEnv [0] ?s1 = ?s2"
    unfolding blockStatement_unscoped[OF yieldingBlock_nodes(2)[OF initial_sel(1)] ni1 nc]
    by (simp add: callResolver_def yieldingHost_def fn initialState_def emit_def
          yieldingResolution_def emitAMD_def relativeToFile_def enterComponentBlock_def
          enteringComponentBlock_def yieldingState_def yieldingMarker_def Let_def)
  then have 2: "dispatch ?V (Enter [0]) ?s1 = ?s2"
    unfolding d(3)[OF yieldingBlock_nodes(2)[OF initial_sel(1)]] .
  have "programEnter localsEnv [0, 1] ?s2 = ?s3"
    unfolding programEnter_locals[OF yieldingBlock_nodes(3)[OF yieldingState_sel(1)] ls]
    by (simp add: yieldingState_def)
  then have 3: "dispatch ?V (Enter [0, 1]) ?s2 = ?s3"
    unfolding d(1)[OF yieldingBlock_nodes(3)[OF yieldingState_sel(1)]] .
  have ni3: "\<not> inScope ''component'' (scopeStack ?s3)"
    by (simp add: yieldingState_def)
  have "mustacheStatementEnter yieldingHost exampleOptions localsEnv [0, 1, 0] ?s3 = ?s4"
    unfolding mustacheStatementEnter_component[OF yieldingBlock_nodes(4)[OF yieldingState_sel(1)] ni3]
    by (simp add: resolveLocator_def safeComponentInScope_def safeComponentAt_def Let_def
          callResolver_def yieldingHost_def fn emit_def yieldingState_def nth_opt_def)
  then have 4: "dispatch ?V (Enter [0, 1, 0]) ?s3 = ?s4"
    unfolding d(5)[OF yieldingBlock_nodes(4)[OF yieldingState_sel(1)]] .
  have 5: "dispatch ?V (Exit [0, 1, 0]) ?s4 = ?s4"
    unfolding d(6)[OF yieldingBlock_nodes(4)[OF yieldingState_sel(1)]] ..
  have "programExit yieldingHost exampleOptions localsEnv [0, 1] ?s4 = ?s5"
    by (simp add: programExit_def ls popScope_def pop_def runExit_no_arguments yieldingState_def
          yieldingMarker_def Let_def)
  then have 6: "dispatch ?V (Exit [0, 1]) ?s4 = ?s5"
    unfolding d(2)[OF yieldingBlock_nodes(3)[OF yieldingState_sel(1)]] .
  have 7: "dispatch ?V (Exit [0]) ?s5 = ?s5"
    unfolding d(4)[OF yieldingBlock_nodes(2)[OF yieldingState_sel(1)]] ..
  have "programExit yieldingHost exampleOptions localsEnv [] ?s5 = ?s6"
    by (simp add: programExit_def ls popScope_def pop_def yieldingState_def Let_def)
  then have 8: "dispatch ?V (Exit []) ?s5 = ?s6"
    unfolding d(2)[OF yieldingBlock_nodes(1)[OF yieldingState_sel(1)]] .
  show "walk ?V yieldingWalk ?s0 = ?s6"
    unfolding yieldingWalk_def walk_def
    by (simp only: fold_simps comp_apply 1 2 3 4 5 6 7 8)
  show "walk ?V [Enter [], Enter [0], Enter [0, 1]] ?s0 = ?s3"
    unfolding walk_def
    by (simp only: fold_simps comp_apply 1 2 3)
qed

lemma no_locals_run:
  "walk (visitor (makeResolverTransform yieldingHost exampleOptions exampleEnv)) yieldingWalk
     (initialState yieldingBlock)
   = yieldingState [] [resolveMustache ''parent'' True ''app.hbs'' 2]"
  "walk (visitor (makeResolverTransform yieldingHost exampleOptions exampleEnv))
     [Enter [], Enter [0], Enter [0, 1]] (initialState yieldingBlock)
   = yieldingState [blockParams [''x''], componentBlockMarker yieldingMarker, blockParams []]
       [resolveMustache ''parent'' True ''app.hbs'' 2]"
proof -
  let ?V = "visitor (makeResolverTransform yieldingHost exampleOptions exampleEnv)"
  let ?rm = "resolveMustache ''parent'' True ''app.hbs'' 2"
  let ?x = "blockParams [''x'']"
  let ?e = "blockParams []"
  let ?m = "componentBlockMarker yieldingMarker"
  let ?s0 = "initialState yieldingBlock"
  let ?s1 = "?s0\<lparr> scopeStack := [?e] \<rparr>"
  let ?s2 = "yieldingState [?m, ?e] [?rm]"
  let ?s3 = "yieldingState [?x, ?m, ?e] [?rm]"
  let ?s5 = "yieldingState [?e] [?rm]"
  let ?s6 = "yieldingState [] [?rm]"
  have ns: "strict exampleEnv \<noteq> Some True" and ls: "locals exampleEnv = None"
    and fn: "filename exampleEnv = ''app.hbs''"
    by (simp_all add: exampleEnv_def)
  note d = dispatch_to_handler[OF ns]
  have "programEnter exampleEnv [] ?s0 = ?s1"
    unfolding programEnter_at[OF yieldingBlock_nodes(1)[OF initial_sel(3)] ls]
    by (simp add: initialState_def)
  then have 1: "dispatch ?V (Enter []) ?s0 = ?s1"
    unfolding d(1)[OF yieldingBlock_nodes(1)[OF initial_sel(3)]] .
  have ni1: "\<not> inScope ''parent'' (scopeStack ?s1)"
    by (simp add: initialState_def)
  have nc: "''parent'' \<noteq> ''component''"
    by simp
  have "blockStatement yieldingHost exampleOptions exampleEnv [0] ?s1 = ?s2"
    unfolding blockStatement_unscoped[OF yieldingBlock_nodes(2)[OF initial_sel(1)] ni1 nc]
    by (simp add: callResolver_def yieldingHost_def fn initialState_def emit_def
          yieldingResolution_def emitAMD_def relativeToFile_def enterComponentBlock_def
          enteringComponentBlock_def yieldingState_def yieldingMarker_def Let_def)
  then have 2: "dispatch ?V (Enter [0]) ?s1 = ?s2"
    unfolding d(3)[OF yieldingBlock_nodes(2)[OF initial_sel(1)]] .
  have "programEnter exampleEnv [0, 1] ?s2 = ?s3"
    unfolding programEnter_at[OF yieldingBlock_nodes(3)[OF yieldingState_sel(1)] ls]
    by (simp add: yieldingState_def)
  then have 3: "dispatch ?V (Enter [0, 1]) ?s2 = ?s3"
    unfolding d(1)[OF yieldingBlock_nodes(3)[OF yieldingState_sel(1)]] .
  have ni3: "\<not> inScope ''component'' (scopeStack ?s3)"
    by (simp add: yieldingState_def)
  have "mustacheStatementEnter yieldingHost exampleOptions exampleEnv [0, 1, 0] ?s3 = ?s3"
    unfolding mustacheStatementEnter_component[OF yieldingBlock_nodes(4)[OF yieldingState_sel(1)] ni3]
    by (simp add: resolveLocator_def safeComponentInScope_def safeComponentAt_def Let_def
          yieldingMarker_def yieldingResolution_def emit_def yieldingState_def nth_opt_def)
  then have 4: "dispatch ?V (Enter [0, 1, 0]) ?s3 = ?s3"
    unfolding d(5)[OF yieldingBlock_nodes(4)[OF yieldingState_sel(1)]] .
  have 5: "dispatch ?V (Exit [0, 1, 0]) ?s3 = ?s3"
    unfolding d(6)[OF yieldingBlock_nodes(4)[OF yieldingState_sel(1)]] ..
  have "programExit yieldingHost exampleOptions exampleEnv [0, 1] ?s3 = ?s5"
    by (simp add: programExit_def ls popScope_def pop_def runExit_no_arguments yieldingState_def
          yieldingMarker_def Let_def)
  then have 6: "dispatch ?V (Exit [0, 1]) ?s3 = ?s5"
    unfolding d(2)[OF yieldingBlock_nodes(3)[OF yieldingState_sel(1)]] .
  have 7: "dispatch ?V (Exit [0]) ?s5 = ?s5"
    unfolding d(4)[OF yieldingBlock_nodes(2)[OF yieldingState_sel(1)]] ..
  have "programExit yieldingHost exampleOptions exampleEnv [] ?s5 = ?s6"
    by (simp add: programExit_def ls popScope_def pop_def yieldingState_def Let_def)
  then have 8: "dispatch ?V (Exit []) ?s5 = ?s6"
    unfolding d(2)[OF yieldingBlock_nodes(1)[OF yieldingState_sel(1)]] .
  show "walk ?V yieldingWalk ?s0 = ?s6"
    unfolding yieldingWalk_def walk_def
    by (simp only: fold_simps comp_apply 1 2 3 4 5 6 7 8)
  show "walk ?V [Enter [], Enter [0], Enter [0, 1]] ?s0 = ?s3"
    unfolding walk_def
    by (simp only: fold_simps comp_apply 1 2 3)
qed

text \<open>
  C7. \<open>Program.enter\<close> pushes the locals, when there are any, before the block params of
  every block, so for a block statement the locals frame comes between the marker and
  the frame of the block's own params. In \<open>{{#parent as |x|}}{{component x}}{{/parent}}\<close>,
  where \<open>parent\<close> yields a component in its first slot, with the locals \<open>y\<close> the stack
  inside the block is \<open>[x], [y], marker, [], [y]\<close>: \<open>x\<close> is not classified as safe and
  the Resolver is asked for it. Without locals the stack is \<open>[x], marker, []\<close> and the
  Resolver is not asked.
\<close>

theorem yielded_parameter_resolved_with_locals:
  "resolverCalls (walk (visitor (makeResolverTransform yieldingHost exampleOptions localsEnv))
      yieldingWalk (initialState yieldingBlock))
   = [resolveMustache ''parent'' True ''app.hbs'' 2,
      resolveComponentHelper (PathLocator ''x'') ''app.hbs'' 6 None] \<and>
   scopeStack (walk (visitor (makeResolverTransform yieldingHost exampleOptions localsEnv))
      [Enter [], Enter [0], Enter [0, 1]] (initialState yieldingBlock))
   = [blockParams [''x''], blockParams [''y''], componentBlockMarker yieldingMarker,
      blockParams [], blockParams [''y'']] \<and>
   resolverCalls (walk (visitor (makeResolverTransform yieldingHost exampleOptions exampleEnv))
      yieldingWalk (initialState yieldingBlock))
   = [resolveMustache ''parent'' True ''app.hbs'' 2] \<and>
   scopeStack (walk (visitor (makeResolverTransform yieldingHost exampleOptions exampleEnv))
      [Enter [], Enter [0], Enter [0, 1]] (initialState yieldingBlock))
   = [blockParams [''x''], componentBlockMarker yieldingMarker, blockParams []]"
  unfolding locals_run no_locals_run by (simp add: yieldingState_def)

end
